theory Spec2Isabelle
  imports Main "HOL-Library.AList"
begin

section \<open>Python strings\<close>

text \<open>
  A Python \<open>str\<close> is modelled as a HOL \<open>string\<close>; every character is a code point
  below 256. The functions below are the \<open>str\<close> methods the sources call.
\<close>

definition isspace :: "char \<Rightarrow> bool" where
  \<comment> \<open>\<open>str.isspace\<close> on one character: TAB, LF, VT, FF, CR, FS, GS, RS, US, space, NEL, NBSP\<close>
  "isspace c = (of_char c \<in> {9, 10, 11, 12, 13, 28, 29, 30, 31, 32, 133, 160 :: nat})"

definition is_linebreak :: "char \<Rightarrow> bool" where
  \<comment> \<open>the line boundaries of \<open>str.splitlines\<close>: LF, VT, FF, CR, FS, GS, RS, NEL\<close>
  "is_linebreak c = (of_char c \<in> {10, 11, 12, 13, 28, 29, 30, 133 :: nat})"

definition lower_char :: "char \<Rightarrow> char" where
  \<comment> \<open>\<open>str.lower\<close> on one character: A..Z, and the Latin-1 capitals except the times sign\<close>
  "lower_char c =
     (let n = (of_char c :: nat)
      in if (65 \<le> n \<and> n \<le> 90) \<or> (192 \<le> n \<and> n \<le> 222 \<and> n \<noteq> 215)
         then char_of (n + 32) else c)"

definition lower :: "string \<Rightarrow> string" where
  "lower s = map lower_char s"

definition strip :: "string \<Rightarrow> string" where
  "strip s = rev (dropWhile isspace (rev (dropWhile isspace s)))"

fun startswith :: "string \<Rightarrow> string \<Rightarrow> bool" where
  "startswith s [] = True"
| "startswith [] (p # ps) = False"
| "startswith (c # cs) (p # ps) = (c = p \<and> startswith cs ps)"

definition endswith :: "string \<Rightarrow> string \<Rightarrow> bool" where
  "endswith s p = startswith (rev s) (rev p)"

fun contains :: "string \<Rightarrow> string \<Rightarrow> bool" where
  \<comment> \<open>\<open>p in s\<close>\<close>
  "contains [] p = (p = [])"
| "contains (c # cs) p = (startswith (c # cs) p \<or> contains cs p)"

fun splitlines_acc :: "string \<Rightarrow> string \<Rightarrow> string list" where
  \<comment> \<open>\<open>str.splitlines\<close>; the first argument is the current line, reversed. CR LF is one
      boundary, and a text that ends in a boundary has no empty last line.\<close>
  "splitlines_acc cur [] = (if cur = [] then [] else [rev cur])"
| "splitlines_acc cur [c] = (if is_linebreak c then [rev cur] else [rev (c # cur)])"
| "splitlines_acc cur (c # d # cs) =
     (if c = CHR 0x0D \<and> d = CHR 0x0A then rev cur # splitlines_acc [] cs
      else if is_linebreak c then rev cur # splitlines_acc [] (d # cs)
      else splitlines_acc (c # cur) (d # cs))"

definition splitlines :: "string \<Rightarrow> string list" where
  "splitlines s = splitlines_acc [] s"

definition split1 :: "char \<Rightarrow> string \<Rightarrow> string list" where
  \<comment> \<open>\<open>s.split(sep, 1)\<close>: at most one split, at the first separator\<close>
  "split1 sep s =
     (if sep \<in> set s
      then [takeWhile (\<lambda>c. c \<noteq> sep) s, tl (dropWhile (\<lambda>c. c \<noteq> sep) s)]
      else [s])"

section \<open>Dictionaries\<close>

text \<open>
  A Python \<open>dict\<close> with string keys is an association list in insertion order with
  distinct keys: \<open>d[k] = v\<close> is \<^const>\<open>AList.update\<close>, which overwrites in place or
  appends, and \<open>d.items()\<close> is the list itself.
\<close>

type_synonym pydict = "(string \<times> string) list"

section \<open>The property extractor (simplified\_auth\_validator.py)\<close>

fun extract_properties_loop :: "string list \<Rightarrow> pydict \<Rightarrow> pydict" where
  \<comment> \<open>the \<open>for line in properties_content.splitlines()\<close> loop. The unpacking
      \<open>key, value = line.split('=', 1)\<close> raises when the split has not two parts; the
      enclosing \<open>except\<close> then ends the loop and the dictionary built so far is returned.\<close>
  "extract_properties_loop [] properties = properties"
| "extract_properties_loop (l # ls) properties =
     (let line = strip l
      in if line \<noteq> [] \<and> \<not> startswith line ''#'' \<and> CHR ''='' \<in> set line
         then (case split1 (CHR ''='') line of
                 [key, val] \<Rightarrow>
                   extract_properties_loop ls (AList.update (strip key) (strip val) properties)
               | _ \<Rightarrow> properties)
         else extract_properties_loop ls properties)"

definition extract_properties :: "string \<Rightarrow> pydict" where
  "extract_properties properties_content =
     extract_properties_loop (splitlines properties_content) []"

text \<open>The words of the specification: the lines that count, and the entry each gives.\<close>

definition property_lines :: "string \<Rightarrow> string list" where
  "property_lines text =
     filter (\<lambda>line. line \<noteq> [] \<and> \<not> startswith line ''#'' \<and> CHR ''='' \<in> set line)
       (map strip (splitlines text))"

definition line_key :: "string \<Rightarrow> string" where
  "line_key line = strip (takeWhile (\<lambda>c. c \<noteq> CHR ''='') line)"

definition line_value :: "string \<Rightarrow> string" where
  "line_value line = strip (tl (dropWhile (\<lambda>c. c \<noteq> CHR ''='') line))"

section \<open>Regular expressions (the \<open>re\<close> module)\<close>

text \<open>
  The patterns of the sources are sequences of single characters, character classes under
  \<open>?\<close>, \<open>*\<close>, \<open>+\<close> and \<open>*?\<close>, alternatives of literals, and capturing groups. The matcher
  below is the backtracking matcher of \<open>re\<close> on such sequences: a greedy repetition tries
  the longest run first, a lazy one the shortest, an alternation its branches from the left.
\<close>

datatype cls =
    Ch char          \<comment> \<open>a literal character\<close>
  | AnyOf string     \<comment> \<open>\<open>[...]\<close>\<close>
  | NoneOf string    \<comment> \<open>\<open>[^...]\<close>\<close>
  | Space            \<comment> \<open>\<open>\s\<close>\<close>
  | Dot              \<comment> \<open>\<open>.\<close> under \<open>re.DOTALL\<close>\<close>

datatype atom =
    One cls          \<comment> \<open>\<open>c\<close>\<close>
  | Opt cls          \<comment> \<open>\<open>c?\<close>\<close>
  | Star cls         \<comment> \<open>\<open>c*\<close>\<close>
  | Plus cls         \<comment> \<open>\<open>c+\<close>\<close>
  | Lazy cls         \<comment> \<open>\<open>c*?\<close>\<close>
  | Alt "string list" \<comment> \<open>\<open>a|b|c\<close> of literals\<close>
  | GOpen            \<comment> \<open>\<open>(\<close>\<close>
  | GClose           \<comment> \<open>\<open>)\<close>\<close>

type_synonym regex = "atom list"

fun in_cls :: "bool \<Rightarrow> cls \<Rightarrow> char \<Rightarrow> bool" where
  \<comment> \<open>the first argument is \<open>re.IGNORECASE\<close>\<close>
  "in_cls ic (Ch c) x = (if ic then lower_char x = lower_char c else x = c)"
| "in_cls ic (AnyOf cs) x = (if ic then lower_char x \<in> lower_char ` set cs else x \<in> set cs)"
| "in_cls ic (NoneOf cs) x = (if ic then lower_char x \<notin> lower_char ` set cs else x \<notin> set cs)"
| "in_cls ic Space x = isspace x"
| "in_cls ic Dot x = True"

definition lit_matches :: "bool \<Rightarrow> string \<Rightarrow> string \<Rightarrow> bool" where
  "lit_matches ic l s = (if ic then startswith (lower s) (lower l) else startswith s l)"

fun rmatch :: "bool \<Rightarrow> regex \<Rightarrow> string \<Rightarrow> string list \<Rightarrow> string list \<Rightarrow> (string list \<times> string) option" where
  \<comment> \<open>match at the head of the text: the captured groups and the text left, or None.
      \<open>opens\<close> holds the text taken so far by each group still open (reversed), \<open>caps\<close>
      the groups already closed.\<close>
  "rmatch ic [] s opens caps = Some (caps, s)"
| "rmatch ic (GOpen # r) s opens caps = rmatch ic r s ([] # opens) caps"
| "rmatch ic (GClose # r) s opens caps =
     (case opens of [] \<Rightarrow> None | g # gs \<Rightarrow> rmatch ic r s gs (caps @ [rev g]))"
| "rmatch ic (One c # r) s opens caps =
     (case s of
        [] \<Rightarrow> None
      | x # xs \<Rightarrow> if in_cls ic c x then rmatch ic r xs (map ((#) x) opens) caps else None)"
| "rmatch ic (Opt c # r) s opens caps =
     (case s of
        [] \<Rightarrow> rmatch ic r s opens caps
      | x # xs \<Rightarrow>
          if in_cls ic c x
          then (case rmatch ic r xs (map ((#) x) opens) caps of
                  Some m \<Rightarrow> Some m
                | None \<Rightarrow> rmatch ic r s opens caps)
          else rmatch ic r s opens caps)"
| "rmatch ic (Star c # r) s opens caps =
     (case s of
        [] \<Rightarrow> rmatch ic r s opens caps
      | x # xs \<Rightarrow>
          if in_cls ic c x
          then (case rmatch ic (Star c # r) xs (map ((#) x) opens) caps of
                  Some m \<Rightarrow> Some m
                | None \<Rightarrow> rmatch ic r s opens caps)
          else rmatch ic r s opens caps)"
| "rmatch ic (Plus c # r) s opens caps =
     (case s of
        [] \<Rightarrow> None
      | x # xs \<Rightarrow>
          if in_cls ic c x then rmatch ic (Star c # r) xs (map ((#) x) opens) caps else None)"
| "rmatch ic (Lazy c # r) s opens caps =
     (case rmatch ic r s opens caps of
        Some m \<Rightarrow> Some m
      | None \<Rightarrow>
          (case s of
             [] \<Rightarrow> None
           | x # xs \<Rightarrow>
               if in_cls ic c x then rmatch ic (Lazy c # r) xs (map ((#) x) opens) caps
               else None))"
| "rmatch ic (Alt ls # r) s opens caps =
     foldr (\<lambda>l other.
              if lit_matches ic l s
              then (case rmatch ic r (drop (length l) s)
                           (map (\<lambda>g. rev (take (length l) s) @ g) opens) caps of
                      Some m \<Rightarrow> Some m
                    | None \<Rightarrow> other)
              else other)
       ls None"

fun findall :: "bool \<Rightarrow> regex \<Rightarrow> string \<Rightarrow> string list list" where
  \<comment> \<open>\<open>re.findall\<close>: the groups of every match, leftmost first, the matches not
      overlapping. No pattern of the sources matches the empty text; the search then moves
      on by one character.\<close>
  "findall ic p s =
     (case rmatch ic p s [] [] of
        Some (caps, rest) \<Rightarrow>
          caps # (if length rest < length s then findall ic p rest
                  else (case s of [] \<Rightarrow> [] | c # cs \<Rightarrow> findall ic p cs))
      | None \<Rightarrow> (case s of [] \<Rightarrow> [] | c # cs \<Rightarrow> findall ic p cs))"

definition group1 :: "string list \<Rightarrow> string" where
  "group1 caps = (case caps of [] \<Rightarrow> [] | g # gs \<Rightarrow> g)"

definition findall1 :: "regex \<Rightarrow> string \<Rightarrow> string list" where
  \<comment> \<open>\<open>re.findall(pattern, content)\<close> for a pattern with one group, no flags\<close>
  "findall1 p s = map group1 (findall False p s)"

fun search :: "bool \<Rightarrow> regex \<Rightarrow> string \<Rightarrow> bool" where
  \<comment> \<open>the truth value of \<open>re.search\<close>\<close>
  "search ic p [] = (rmatch ic p [] [] [] \<noteq> None)"
| "search ic p (c # cs) = (rmatch ic p (c # cs) [] [] \<noteq> None \<or> search ic p cs)"

definition lit :: "string \<Rightarrow> regex" where
  "lit s = map (\<lambda>c. One (Ch c)) s"

section \<open>Element trees (xml.etree.ElementTree)\<close>

text \<open>
  A parsed document is a tree of elements. A tag that belongs to a namespace is written in
  the form \<open>{uri}local\<close>, as the parser stores it; \<open>etext\<close> is the text before the first
  child, None when there is none.
\<close>

datatype element =
  Element (etag: string) (eattrib: pydict) (etext: "string option") (echildren: "element list")

type_synonym namespaces = pydict

text \<open>
  The path expressions of the sources have one step: a name test on the children of the
  context element (\<open>tag\<close>, \<open>./tag\<close>) or on its descendants (\<open>.//tag\<close>). The name is plain,
  prefixed, or the wildcard with the predicate \<open>[local-name()="..."]\<close>.
\<close>

datatype axis = Child | Descendant

datatype nametest =
    Name string               \<comment> \<open>\<open>tag\<close>\<close>
  | QName string string       \<comment> \<open>\<open>prefix:tag\<close>\<close>
  | LocalName string          \<comment> \<open>\<open>*[local-name()="tag"]\<close>\<close>

type_synonym path = "axis \<times> nametest"

fun descendants :: "element \<Rightarrow> element list" where
  \<comment> \<open>every element below the given one, in document order\<close>
  "descendants (Element t a x cs) = concat (map (\<lambda>c. c # descendants c) cs)"

fun resolve_tag :: "namespaces \<Rightarrow> nametest \<Rightarrow> string option" where
  \<comment> \<open>the tag a name test selects; None is the \<open>SyntaxError\<close> that ElementPath raises for a
      prefix missing from the namespace map and for a predicate it does not know, which
      \<open>local-name()\<close> is\<close>
  "resolve_tag ns (Name l) = Some l"
| "resolve_tag ns (QName p l) =
     (case map_of ns p of None \<Rightarrow> None | Some uri \<Rightarrow> Some (''{'' @ uri @ ''}'' @ l))"
| "resolve_tag ns (LocalName l) = None"

fun et_findall :: "element \<Rightarrow> path \<Rightarrow> namespaces \<Rightarrow> element list option" where
  \<comment> \<open>\<open>element.findall(path, namespaces)\<close>; None when it raises\<close>
  "et_findall e (ax, nt) ns =
     (case resolve_tag ns nt of
        None \<Rightarrow> None
      | Some t \<Rightarrow>
          Some (filter (\<lambda>c. etag c = t)
                  (case ax of Child \<Rightarrow> echildren e | Descendant \<Rightarrow> descendants e)))"

definition et_find :: "element \<Rightarrow> path \<Rightarrow> namespaces \<Rightarrow> element option option" where
  \<comment> \<open>\<open>element.find(path, namespaces)\<close>: None when it raises, \<open>Some None\<close> when nothing
      matches\<close>
  "et_find e p ns =
     (case et_findall e p ns of
        None \<Rightarrow> None
      | Some [] \<Rightarrow> Some None
      | Some (x # xs) \<Rightarrow> Some (Some x))"

subsection \<open>SAPConnection.\_extract\_properties\<close>

definition property_paths :: "path list" where
  "property_paths =
     [(Descendant, QName ''ifl'' ''property''), (Child, Name ''property''),
      (Descendant, Name ''property''), (Descendant, LocalName ''property'')]"

definition key_paths :: "path list" where
  "key_paths = [(Child, Name ''key''), (Child, QName ''ifl'' ''key''), (Child, LocalName ''key'')]"

definition value_paths :: "path list" where
  "value_paths =
     [(Child, Name ''value''), (Child, QName ''ifl'' ''value''), (Child, LocalName ''value'')]"

fun find_key_text :: "element \<Rightarrow> namespaces \<Rightarrow> path list \<Rightarrow> string option" where
  \<comment> \<open>the loop over \<open>key_paths\<close>: it ends at the first key element with a non-empty text\<close>
  "find_key_text prop ns [] = None"
| "find_key_text prop ns (key_path # rest) =
     (case et_find prop key_path ns of
        Some (Some key_elem) \<Rightarrow>
          (case etext key_elem of
             Some t \<Rightarrow> if t \<noteq> [] then Some t else find_key_text prop ns rest
           | None \<Rightarrow> find_key_text prop ns rest)
      | _ \<Rightarrow> find_key_text prop ns rest)"

fun find_value_text :: "element \<Rightarrow> namespaces \<Rightarrow> path list \<Rightarrow> string option" where
  \<comment> \<open>the loop over \<open>value_paths\<close>: it ends at the first value element, whose text may be
      None\<close>
  "find_value_text prop ns [] = None"
| "find_value_text prop ns (value_path # rest) =
     (case et_find prop value_path ns of
        Some (Some value_elem) \<Rightarrow> etext value_elem
      | _ \<Rightarrow> find_value_text prop ns rest)"

definition property_pair :: "element \<Rightarrow> namespaces \<Rightarrow> pydict" where
  "property_pair prop ns =
     (case (find_key_text prop ns key_paths, find_value_text prop ns value_paths) of
        (Some key_text, Some value_text) \<Rightarrow> [(key_text, value_text)]
      | _ \<Rightarrow> [])"

definition xml_extract_properties :: "element \<Rightarrow> namespaces \<Rightarrow> (string \<times> string) list" where
  \<comment> \<open>\<open>_extract_properties(element, namespaces)\<close>: a list of pairs, duplicates kept. A path
      that raises is skipped. Without any pair the attributes of the element itself are
      read.\<close>
  "xml_extract_properties element ns =
     (let props =
            concat (map (\<lambda>path. case et_findall element path ns of
                                   None \<Rightarrow> []
                                 | Some found \<Rightarrow> concat (map (\<lambda>prop. property_pair prop ns) found))
                      property_paths)
      in if props = []
         then (case (map_of (eattrib element) ''key'', map_of (eattrib element) ''value'') of
                 (Some k, Some v) \<Rightarrow> [(k, v)]
               | _ \<Rightarrow> [])
              @ (case (map_of (eattrib element) ''name'', map_of (eattrib element) ''value'') of
                   (Some n, Some v) \<Rightarrow> [(n, v)]
                 | _ \<Rightarrow> [])
         else props)"

section \<open>The security compliance check (SAPConnection.check\_security\_compliance)\<close>

record security_check =
  detected_methods :: "string list"
  is_compliant :: bool
  issues :: "string list"
  details :: "string list"

definition quoted :: "string \<Rightarrow> string" where
  \<comment> \<open>\<open>'{s}'\<close> in an f-string\<close>
  "quoted s = CHR 0x27 # s @ [CHR 0x27]"

definition is_basic :: "string \<Rightarrow> bool" where
  \<comment> \<open>\<open>s.lower() in ["basic", "basic authentication"]\<close>\<close>
  "is_basic s = (lower s \<in> set [''basic'', ''basic authentication''])"

text \<open>
  The patterns for a direct value, in the order of the list \<open>auth_patterns\<close>:
  \<^verbatim>\<open><key>authenticationMethod</key>\s*<value>([^<]+)</value>\<close>,
  \<^verbatim>\<open><key>authentication[mM]ethod</key>\s*<value>([^<]+)</value>\<close>,
  \<^verbatim>\<open><key>auth[mM]ethod</key>\s*<value>([^<]+)</value>\<close>,
  \<^verbatim>\<open><property[^>]*>\s*<key>authenticationMethod</key>\s*<value>([^<]+)</value>\<close>,
  \<^verbatim>\<open>authentication[mM]ethod="([^"]+)"\<close> and
  \<^verbatim>\<open>auth[mM]ethod="([^"]+)"\<close>.
\<close>

definition captured_value :: regex where
  "captured_value = [GOpen, Plus (NoneOf ''<''), GClose]"

definition auth_patterns :: "regex list" where
  "auth_patterns =
     [ lit ''<key>authenticationMethod</key>'' @ [Star Space] @ lit ''<value>''
         @ captured_value @ lit ''</value>'',
       lit ''<key>authentication'' @ [One (AnyOf ''mM'')] @ lit ''ethod</key>'' @ [Star Space]
         @ lit ''<value>'' @ captured_value @ lit ''</value>'',
       lit ''<key>auth'' @ [One (AnyOf ''mM'')] @ lit ''ethod</key>'' @ [Star Space]
         @ lit ''<value>'' @ captured_value @ lit ''</value>'',
       lit ''<property'' @ [Star (NoneOf ''>'')] @ lit ''>'' @ [Star Space]
         @ lit ''<key>authenticationMethod</key>'' @ [Star Space] @ lit ''<value>''
         @ captured_value @ lit ''</value>'',
       lit ''authentication'' @ [One (AnyOf ''mM'')] @ lit ''ethod=\"''
         @ [GOpen, Plus (NoneOf ''\"''), GClose] @ lit ''\"'',
       lit ''auth'' @ [One (AnyOf ''mM'')] @ lit ''ethod=\"''
         @ [GOpen, Plus (NoneOf ''\"''), GClose] @ lit ''\"'' ]"

text \<open>
  The patterns for a parameterized value, in the order of \<open>param_auth_patterns\<close>:
  \<^verbatim>\<open><key>authenticationMethod</key>\s*<value>\{\{([^}]+)\}\}</value>\<close>,
  \<^verbatim>\<open><key>authentication[mM]ethod</key>\s*<value>\{\{([^}]+)\}\}</value>\<close>,
  \<^verbatim>\<open><key>auth[mM]ethod</key>\s*<value>\{\{([^}]+)\}\}</value>\<close>,
  \<^verbatim>\<open>authentication[mM]ethod="\{\{([^}]+)\}\}"\<close> and
  \<^verbatim>\<open>auth[mM]ethod="\{\{([^}]+)\}\}"\<close>.
\<close>

definition captured_param :: regex where
  "captured_param = lit ''{{'' @ [GOpen, Plus (NoneOf ''}''), GClose] @ lit ''}}''"

definition param_auth_patterns :: "regex list" where
  "param_auth_patterns =
     [ lit ''<key>authenticationMethod</key>'' @ [Star Space] @ lit ''<value>''
         @ captured_param @ lit ''</value>'',
       lit ''<key>authentication'' @ [One (AnyOf ''mM'')] @ lit ''ethod</key>'' @ [Star Space]
         @ lit ''<value>'' @ captured_param @ lit ''</value>'',
       lit ''<key>auth'' @ [One (AnyOf ''mM'')] @ lit ''ethod</key>'' @ [Star Space]
         @ lit ''<value>'' @ captured_param @ lit ''</value>'',
       lit ''authentication'' @ [One (AnyOf ''mM'')] @ lit ''ethod=\"'' @ captured_param
         @ lit ''\"'',
       lit ''auth'' @ [One (AnyOf ''mM'')] @ lit ''ethod=\"'' @ captured_param @ lit ''\"'' ]"

subsection \<open>Stage 1: direct authentication methods\<close>

definition add_method :: "string \<Rightarrow> string \<Rightarrow> security_check \<Rightarrow> security_check" where
  \<comment> \<open>\<open>if probe not in result["detected_methods"]: result["detected_methods"].append(entry)\<close>\<close>
  "add_method probe entry res =
     (if probe \<notin> set (detected_methods res)
      then res\<lparr>detected_methods := detected_methods res @ [entry]\<rparr> else res)"

definition flag_basic :: "string \<Rightarrow> security_check \<Rightarrow> security_check" where
  \<comment> \<open>\<open>result["is_compliant"] = False; result["issues"].append(issue)\<close>\<close>
  "flag_basic issue res = res\<lparr>is_compliant := False, issues := issues res @ [issue]\<rparr>"

definition direct_method_step :: "string \<Rightarrow> security_check \<Rightarrow> security_check" where
  \<comment> \<open>the body of \<open>for method in auth_method_matches\<close>\<close>
  "direct_method_step m res =
     (let method = strip m
      in if method \<noteq> []
         then (let res1 = add_method method method res
               in if is_basic method
                  then flag_basic (''Direct Basic Authentication detected: '' @ quoted method) res1
                  else res1)
         else res)"

definition scan_direct :: "string \<Rightarrow> security_check \<Rightarrow> security_check" where
  "scan_direct content res =
     fold (\<lambda>pattern. fold direct_method_step (findall1 pattern content)) auth_patterns res"

subsection \<open>Stage 2: parameterized authentication methods\<close>

fun resolve_parameter :: "pydict \<Rightarrow> string \<Rightarrow> string option" where
  \<comment> \<open>the loop \<open>for prop_key, prop_value in properties.items()\<close> with its \<open>break\<close>; None is
      \<open>resolved_value = None\<close>\<close>
  "resolve_parameter [] param_name = None"
| "resolve_parameter ((prop_key, prop_value) # rest) param_name =
     (if prop_key = param_name \<or> endswith prop_key (''_'' @ param_name)
         \<or> lower prop_key = lower param_name
      then Some prop_value
      else resolve_parameter rest param_name)"

definition truthy :: "string option \<Rightarrow> string option" where
  \<comment> \<open>\<open>if resolved_value:\<close> holds for a string that is not empty\<close>
  "truthy r = (case r of Some v \<Rightarrow> if v \<noteq> [] then Some v else None | None \<Rightarrow> None)"

definition param_step :: "pydict \<Rightarrow> string \<Rightarrow> security_check \<Rightarrow> security_check" where
  \<comment> \<open>the body of \<open>for param_name in param_auth_matches\<close>\<close>
  "param_step properties p res =
     (let param_name = strip p;
          res1 = res\<lparr>details := details res
                   @ [''Found parameterized authentication: {'' @ param_name @ ''}'']\<rparr>
      in case truthy (resolve_parameter properties param_name) of
           Some resolved_value \<Rightarrow>
             (let res2 = add_method resolved_value
                           (resolved_value @ '' (from '' @ param_name @ '')'') res1
              in if is_basic resolved_value
                 then flag_basic (''Basic Authentication detected via parameter: ''
                        @ quoted param_name @ '' = '' @ quoted resolved_value) res2
                 else res2)
         | None \<Rightarrow>
             res1\<lparr>details := details res1
                    @ [''Could not resolve parameter: '' @ quoted param_name]\<rparr>)"

definition scan_parameterized :: "string \<Rightarrow> pydict \<Rightarrow> security_check \<Rightarrow> security_check" where
  "scan_parameterized content properties res =
     fold (\<lambda>pattern. fold (param_step properties) (findall1 pattern content))
       param_auth_patterns res"

subsection \<open>Stage 3: the message flows of the parsed document\<close>

definition security_namespace_sets :: "namespaces list" where
  "security_namespace_sets =
     [ [(''bpmn2'', ''http://www.omg.org/spec/BPMN/20100524/MODEL''),
        (''ifl'', ''http:///com.sap.ifl.model/Ifl.xsd'')],
       [(''bpmn'', ''http://www.omg.org/spec/BPMN/20100524/MODEL''),
        (''ifl'', ''http:///com.sap.ifl.model/Ifl.xsd'')],
       [] ]"

definition message_flow_patterns :: "path list" where
  "message_flow_patterns =
     [(Descendant, QName ''bpmn2'' ''messageFlow''), (Descendant, QName ''bpmn'' ''messageFlow''),
      (Descendant, Name ''messageFlow''), (Descendant, LocalName ''messageFlow'')]"

definition flow_property_step :: "pydict \<Rightarrow> string \<times> string \<Rightarrow> security_check \<Rightarrow> security_check" where
  \<comment> \<open>the body of \<open>for key, value in props\<close>; \<open>value[2:-2]\<close> is the value without its first
      two and last two characters\<close>
  "flow_property_step properties kv res =
     (case kv of (key, val) \<Rightarrow>
        if key = ''authenticationMethod''
        then if \<not> (startswith val ''{{'' \<and> endswith val ''}}'')
             then (let res1 = add_method val val res
                   in if is_basic val
                      then flag_basic (''Direct Basic Authentication detected in message flow: ''
                             @ quoted val) res1
                      else res1)
             else (let param_name = strip (drop 2 (take (length val - 2) val));
                       res1 = res\<lparr>details := details res
                                @ [''Found parameterized authentication in message flow: '' @ val]\<rparr>
                   in case truthy (resolve_parameter properties param_name) of
                        Some resolved_value \<Rightarrow>
                          (let res2 = add_method resolved_value
                                        (resolved_value @ '' (from '' @ param_name @ '')'') res1
                           in if is_basic resolved_value
                              then flag_basic
                                     (''Basic Authentication detected via parameter in message flow: ''
                                        @ quoted param_name @ '' = '' @ quoted resolved_value) res2
                              else res2)
                      | None \<Rightarrow>
                          res1\<lparr>details := details res1
                                 @ [''Could not resolve parameter in message flow: ''
                                      @ quoted param_name]\<rparr>)
        else res)"

definition flows_step :: "pydict \<Rightarrow> namespaces \<Rightarrow> element list \<Rightarrow> security_check \<Rightarrow> security_check" where
  \<comment> \<open>\<open>for flow in message_flows\<close>\<close>
  "flows_step properties ns flows res =
     fold (\<lambda>flow. fold (flow_property_step properties) (xml_extract_properties flow ns)) flows res"

fun flow_patterns_loop ::
  "element \<Rightarrow> pydict \<Rightarrow> namespaces \<Rightarrow> path list \<Rightarrow> bool \<times> security_check \<Rightarrow> bool \<times> security_check" where
  \<comment> \<open>\<open>for pattern in message_flow_patterns\<close>; the flag is \<open>message_flows_found\<close>. A
      \<open>findall\<close> that raises is the \<open>except Exception: continue\<close>.\<close>
  "flow_patterns_loop root properties ns [] acc = acc"
| "flow_patterns_loop root properties ns (pattern # rest) (found, res) =
     (case et_findall root pattern ns of
        None \<Rightarrow> flow_patterns_loop root properties ns rest (found, res)
      | Some message_flows \<Rightarrow>
          if message_flows \<noteq> []
          then flow_patterns_loop root properties ns rest
                 (True, flows_step properties ns message_flows res)
          else flow_patterns_loop root properties ns rest (found, res))"

fun flow_namespaces_loop ::
  "element \<Rightarrow> pydict \<Rightarrow> namespaces list \<Rightarrow> security_check \<Rightarrow> security_check" where
  \<comment> \<open>\<open>for namespaces in namespace_sets\<close>, left at the first set that found message flows\<close>
  "flow_namespaces_loop root properties [] res = res"
| "flow_namespaces_loop root properties (ns # rest) res =
     (case flow_patterns_loop root properties ns message_flow_patterns (False, res) of
        (found, res1) \<Rightarrow>
          if found then res1 else flow_namespaces_loop root properties rest res1)"

definition scan_message_flows ::
  "(string \<Rightarrow> string + element) \<Rightarrow> string \<Rightarrow> pydict \<Rightarrow> security_check \<Rightarrow> security_check" where
  \<comment> \<open>\<open>fromstring\<close> is \<open>ET.fromstring\<close>, a parameter: \<open>Inl msg\<close> is the \<open>ParseError\<close> it raises
      on a text that is not well-formed, with its message\<close>
  "scan_message_flows fromstring content properties res =
     (case fromstring content of
        Inl msg \<Rightarrow>
          res\<lparr>details := details res @ [''XML parsing error during security check: '' @ msg]\<rparr>
      | Inr root \<Rightarrow> flow_namespaces_loop root properties security_namespace_sets res)"

subsection \<open>Stage 4: fallback patterns; stage 5: properties; final policy\<close>

text \<open>
  The last two of \<open>basic_auth_patterns\<close> are \<^verbatim>\<open>"authentication"\s*:\s*"basic"\<close> and
  \<^verbatim>\<open>"auth_type"\s*:\s*"basic"\<close>; the other fallback patterns are literals.
\<close>

definition basic_auth_patterns :: "regex list" where
  "basic_auth_patterns =
     [ lit ''basicAuthentication'', lit ''Basic Authentication'', lit ''BasicAuth'',
       lit ''basic_auth'',
       lit ''\"authentication\"'' @ [Star Space] @ lit '':'' @ [Star Space] @ lit ''\"basic\"'',
       lit ''\"auth_type\"'' @ [Star Space] @ lit '':'' @ [Star Space] @ lit ''\"basic\"'' ]"

definition oauth_patterns :: "regex list" where
  "oauth_patterns =
     [ lit ''oauth'', lit ''OAuth'', lit ''Authorization Code'', lit ''Client Credentials'',
       lit ''Bearer'', lit ''JWT'' ]"

definition cert_patterns :: "regex list" where
  "cert_patterns =
     [ lit ''certificate'', lit ''Certificate'', lit ''x509'', lit ''X509'', lit ''client cert'',
       lit ''mutual auth'' ]"

definition append_method :: "string \<Rightarrow> security_check \<Rightarrow> security_check" where
  "append_method entry res = res\<lparr>detected_methods := detected_methods res @ [entry]\<rparr>"

definition fallback_patterns :: "string \<Rightarrow> security_check \<Rightarrow> security_check" where
  \<comment> \<open>\<open>if not result["detected_methods"]:\<close> with its three loops, each left at the first
      pattern found; the searches are \<open>re.IGNORECASE\<close>\<close>
  "fallback_patterns content res =
     (if detected_methods res = []
      then (let res1 = (if list_ex (\<lambda>p. search True p content) basic_auth_patterns
                        then flag_basic ''Basic Authentication detected via string pattern''
                               (append_method ''Basic Authentication (pattern match)'' res)
                        else res);
                res2 = (if list_ex (\<lambda>p. search True p content) oauth_patterns
                        then append_method ''OAuth (pattern match)'' res1 else res1)
            in if list_ex (\<lambda>p. search True p content) cert_patterns
               then append_method ''Certificate (pattern match)'' res2 else res2)
      else res)"

definition property_step :: "string \<times> string \<Rightarrow> security_check \<Rightarrow> security_check" where
  \<comment> \<open>the body of the last \<open>for key, value in properties.items()\<close>\<close>
  "property_step kv res =
     (case kv of (key, val) \<Rightarrow>
        let res1 = (if contains (lower key) ''authenticationMethod''
                        \<and> contains (lower val) ''certificate''
                    then append_method ''Certificate (from property)'' res else res)
        in if (contains (lower key) ''authenticationMethod'' \<or> contains (lower key) ''auth_type'')
              \<and> contains (lower val) ''oauth''
           then append_method ''OAuth (from property)'' res1 else res1)"

definition deduplicate :: "security_check \<Rightarrow> security_check" where
  \<comment> \<open>\<open>list(set(...))\<close> on the three lists: the elements are kept, each once; Python leaves
      their order open, the model keeps the order of the last occurrences\<close>
  "deduplicate res =
     res\<lparr>detected_methods := remdups (detected_methods res),
         issues := remdups (issues res),
         details := remdups (details res)\<rparr>"

text \<open>
  The pattern of an external call is \<^verbatim>\<open>(http[s]?://|endpoint|url|uri)\<close>; its first
  branch is written out with and without the optional \<open>s\<close>.
\<close>

definition external_call_pattern :: regex where
  "external_call_pattern =
     [GOpen, Alt [''https://'', ''http://'', ''endpoint'', ''url'', ''uri''], GClose]"

definition detection_stages ::
  "(string \<Rightarrow> string + element) \<Rightarrow> string \<Rightarrow> pydict \<Rightarrow> security_check" where
  \<comment> \<open>everything before the final compliance determination\<close>
  "detection_stages fromstring content properties =
     deduplicate
       (fold property_step properties
          (fallback_patterns content
             (scan_message_flows fromstring content properties
                (scan_parameterized content properties
                   (scan_direct content
                      \<lparr>detected_methods = [], is_compliant = True, issues = [], details = []\<rparr>)))))"

definition final_policy :: "string \<Rightarrow> security_check \<Rightarrow> security_check" where
  "final_policy content res =
     (if detected_methods res = [] \<and> search True external_call_pattern content
      then res\<lparr>details := details res
                  @ [''External API calls detected but no authentication method identified''],
               issues := issues res @ [''Possible missing authentication for external services''],
               is_compliant := False\<rparr>
      else res)"

definition check_security_compliance ::
  "(string \<Rightarrow> string + element) \<Rightarrow> string \<Rightarrow> pydict \<Rightarrow> security_check" where
  \<comment> \<open>No step of the model raises, so the outer \<open>except Exception\<close> of the source, which
      would return the result as it stands, has no branch here.\<close>
  "check_security_compliance fromstring content properties =
     final_policy content (detection_stages fromstring content properties)"

text \<open>
  The three ways in which a property key answers a parameter name, and the resolution the
  specification words: an exact key first, then a key with the suffix, then a key equal up
  to case.
\<close>

definition key_matches :: "string \<Rightarrow> string \<Rightarrow> bool" where
  "key_matches prop_key param_name =
     (prop_key = param_name \<or> endswith prop_key (''_'' @ param_name)
        \<or> lower prop_key = lower param_name)"

definition resolve_by_precedence :: "pydict \<Rightarrow> string \<Rightarrow> string option" where
  "resolve_by_precedence properties param_name =
     (case find (\<lambda>kv. fst kv = param_name) properties of
        Some kv \<Rightarrow> Some (snd kv)
      | None \<Rightarrow>
          (case find (\<lambda>kv. endswith (fst kv) (''_'' @ param_name)) properties of
             Some kv \<Rightarrow> Some (snd kv)
           | None \<Rightarrow>
               map_option snd (find (\<lambda>kv. lower (fst kv) = lower param_name) properties)))"

section \<open>The result dictionary\<close>

text \<open>
  The result of \<open>get_iflow_content\<close> is a dictionary. The record has the keys the
  development speaks about; a statement of the sources that only writes another key
  (\<open>iflow_name\<close>, \<open>purpose\<close>, \<open>key_steps\<close>, \<open>adapters_used\<close>, \<open>mapping_entities\<close>,
  \<open>parameters\<close>, \<open>connection_details\<close>, \<open>project_files\<close>, \<open>folder_structure\<close>,
  \<open>meta_info\<close>, \<open>manifest\<close>, \<open>processing_errors\<close>) or only prints has no counterpart.
  The key \<open>error\<close> is absent from a fresh result: None.
\<close>

datatype participant =
    Participant string "(string \<times> string) list"   \<comment> \<open>\<open>{'name': ..., 'properties': ...}\<close>\<close>
  | Connection string string                         \<comment> \<open>\<open>{"type": ..., "adapter": ...}\<close>\<close>

record iflow_result =
  error :: "string option"
  workflow :: "(string \<times> string list) list"          \<comment> \<open>\<open>{'process': ..., 'steps': ...}\<close>\<close>
  senders :: "participant list"
  receivers :: "participant list"
  error_handling :: "(string option \<times> string) list"   \<comment> \<open>\<open>{'subprocess'?: ..., 'details': ...}\<close>\<close>
  has_proper_error_handling :: bool
  security :: "string list"
  security_compliant :: bool
  security_issues :: "string list"
  security_details :: "string list"

definition initialize_result_structure :: iflow_result where
  "initialize_result_structure =
     \<lparr>error = None, workflow = [], senders = [], receivers = [], error_handling = [],
      has_proper_error_handling = False, security = [], security_compliant = False,
      security_issues = [], security_details = []\<rparr>"

section \<open>The file system and the libraries\<close>

text \<open>
  The world a call runs in: the regular files with their contents, in the order in which
  \<open>os.walk\<close> lists them, the directories, and the paths that the operating system refuses
  to remove. Paths are POSIX strings.
\<close>

record world =
  fs_files :: "(string \<times> string) list"
  fs_dirs :: "string list"
  fs_undeletable :: "string list"

text \<open>
  The libraries are parameters: \<open>et_fromstring\<close> is \<open>ET.fromstring\<close> (\<open>Inl\<close> its \<open>ParseError\<close>
  with the message), \<open>zipfile_open\<close> reads the bytes of a file as a ZIP archive (\<open>Inl\<close> its
  \<open>BadZipFile\<close> with the message) and gives the entries, a name with the data, None for an
  entry that cannot be read (an encrypted one); \<open>uuid4\<close> is the text of the fresh UUID.
\<close>

type_synonym zip_entries = "(string \<times> string option) list"

record env =
  et_fromstring :: "string \<Rightarrow> string + element"
  zipfile_open :: "string \<Rightarrow> string + zip_entries"
  uuid4 :: string

definition is_file :: "world \<Rightarrow> string \<Rightarrow> bool" where
  "is_file w p = (p \<in> fst ` set (fs_files w))"

definition path_exists :: "world \<Rightarrow> string \<Rightarrow> bool" where
  \<comment> \<open>\<open>os.path.exists\<close>\<close>
  "path_exists w p = (is_file w p \<or> p \<in> set (fs_dirs w))"

definition read_file :: "world \<Rightarrow> string \<Rightarrow> string option" where
  \<comment> \<open>\<open>open(p).read()\<close>; None when \<open>open\<close> raises\<close>
  "read_file w p = map_of (fs_files w) p"

definition dirname :: "string \<Rightarrow> string" where
  \<comment> \<open>\<open>os.path.dirname\<close>: the text up to the last slash, without trailing slashes unless
      it consists of slashes only\<close>
  "dirname p =
     (let head = rev (dropWhile (\<lambda>c. c \<noteq> CHR ''/'') (rev p))
      in if head \<noteq> [] \<and> \<not> list_all (\<lambda>c. c = CHR ''/'') head
         then rev (dropWhile (\<lambda>c. c = CHR ''/'') (rev head)) else head)"

definition basename :: "string \<Rightarrow> string" where
  "basename p = rev (takeWhile (\<lambda>c. c \<noteq> CHR ''/'') (rev p))"

definition path_join :: "string \<Rightarrow> string \<Rightarrow> string" where
  \<comment> \<open>\<open>os.path.join\<close> of two parts\<close>
  "path_join a b =
     (if startswith b ''/'' then b
      else if a = [] \<or> endswith a ''/'' then a @ b
      else a @ ''/'' @ b)"

definition under :: "string \<Rightarrow> string \<Rightarrow> bool" where
  \<comment> \<open>the path is the directory or lies below it\<close>
  "under d p = (p = d \<or> startswith p (d @ ''/''))"

subsection \<open>SAPConnection.integrate\_security\_check\<close>

text \<open>
  The names an instance of \<open>SAPConnection\<close> has: the methods of the class and the
  attributes that \<open>__init__\<close> sets. An attribute access with another name raises
  \<open>AttributeError\<close>.
\<close>

definition SAPConnection_attributes :: "string list" where
  "SAPConnection_attributes =
     [''__init__'', ''ensure_dir'', ''get_token'', ''set_query'',
      ''search_integration_packages'', ''get_package_details'',
      ''extract_all_iflows_from_package'', ''get_iflow_content'',
      ''_initialize_result_structure'', ''_process_zip_file'', ''_process_xml_file'',
      ''_process_unknown_file'', ''_extract_with_regex'', ''_process_project_file'',
      ''_process_metainfo_file'', ''_process_manifest_file'', ''_find_iflow_definition_files'',
      ''_process_iflow_definition'', ''_extract_properties'', ''_extract_workflow'',
      ''_extract_key_steps'', ''_extract_adapters'', ''_extract_participants'',
      ''_extract_mappings'', ''_extract_parameters'', ''_extract_error_handling'',
      ''_extract_connection_details'', ''_display_result_summary'', ''extract_iflow'',
      ''check_security_compliance'', ''get_iflow_details'', ''integrate_security_check'',
      ''debug_package_id'',
      ''base_url'', ''auth_url'', ''client_id'', ''client_secret'', ''token'',
      ''default_storage_path'', ''local_storage_path'', ''current_query'',
      ''current_package_id'', ''current_iflow_id'', ''current_iflow_name'',
      ''current_iflow_path'']"

definition self_extract_properties :: "string \<Rightarrow> string + pydict" where
  \<comment> \<open>the call \<open>self.extract_properties(content)\<close>; \<open>Inl\<close> is the exception. Were the name
      bound, it would be to the extractor of property files.\<close>
  "self_extract_properties content =
     (if ''extract_properties'' \<in> set SAPConnection_attributes
      then Inr (extract_properties content)
      else Inl ''AttributeError'')"

definition dict_update :: "pydict \<Rightarrow> pydict \<Rightarrow> pydict" where
  \<comment> \<open>\<open>d.update(other)\<close>\<close>
  "dict_update d other = fold (\<lambda>kv. AList.update (fst kv) (snd kv)) other d"

definition zip_read :: "zip_entries \<Rightarrow> string \<Rightarrow> string option" where
  \<comment> \<open>\<open>zip_ref.open(name).read()\<close>: the data of the last entry of that name; None when it
      raises\<close>
  "zip_read entries name = (case map_of (rev entries) name of Some (Some d) \<Rightarrow> Some d | _ \<Rightarrow> None)"

fun zip_properties_loop :: "zip_entries \<Rightarrow> string list \<Rightarrow> pydict \<Rightarrow> pydict" where
  \<comment> \<open>\<open>for prop_file in property_files\<close>; each round is a \<open>try\<close> whose \<open>except\<close> prints and
      goes on\<close>
  "zip_properties_loop entries [] properties = properties"
| "zip_properties_loop entries (prop_file # rest) properties =
     (case zip_read entries prop_file of
        None \<Rightarrow> zip_properties_loop entries rest properties
      | Some prop_content \<Rightarrow>
          (case self_extract_properties prop_content of
             Inl e \<Rightarrow> zip_properties_loop entries rest properties
           | Inr file_properties \<Rightarrow>
               zip_properties_loop entries rest (dict_update properties file_properties)))"

definition properties_from_zip :: "env \<Rightarrow> world \<Rightarrow> string \<Rightarrow> pydict" where
  \<comment> \<open>the first block: only for a path that ends in \<open>.zip\<close> and exists. A file that does
      not open as an archive leaves the properties empty.\<close>
  "properties_from_zip e w iflow_path =
     (if endswith iflow_path ''.zip'' \<and> path_exists w iflow_path
      then (case read_file w iflow_path of
              None \<Rightarrow> []
            | Some bytes \<Rightarrow>
                (case zipfile_open e bytes of
                   Inl msg \<Rightarrow> []
                 | Inr entries \<Rightarrow>
                     zip_properties_loop entries
                       (filter (\<lambda>f. endswith f ''.prop''
                                  \<and> (contains (lower f) ''parameter'' \<or> contains (lower f) ''propert''))
                          (map fst entries))
                       []))
      else [])"

definition properties_from_directory :: "world \<Rightarrow> string \<Rightarrow> pydict \<Rightarrow> pydict" where
  \<comment> \<open>the second block, \<open>if not properties\<close>: \<open>parameters.prop\<close> beside the file\<close>
  "properties_from_directory w iflow_path properties =
     (if properties = []
      then (let params_path = path_join (dirname iflow_path) ''parameters.prop''
            in if path_exists w params_path
               then (case read_file w params_path of
                       None \<Rightarrow> properties
                     | Some param_content \<Rightarrow>
                         (case self_extract_properties param_content of
                            Inl e \<Rightarrow> properties
                          | Inr param_properties \<Rightarrow> dict_update properties param_properties))
               else properties)
      else properties)"

definition collect_properties :: "env \<Rightarrow> world \<Rightarrow> string \<Rightarrow> pydict" where
  \<comment> \<open>the dictionary \<open>properties\<close> at the call of \<open>check_security_compliance\<close>\<close>
  "collect_properties e w iflow_path =
     properties_from_directory w iflow_path (properties_from_zip e w iflow_path)"

definition integrate_security_check ::
  "env \<Rightarrow> world \<Rightarrow> string \<Rightarrow> string \<Rightarrow> iflow_result \<Rightarrow> iflow_result" where
  "integrate_security_check e w content iflow_path result =
     (let security_check =
            check_security_compliance (et_fromstring e) content (collect_properties e w iflow_path)
      in result\<lparr>security := detected_methods security_check,
                security_compliant := is_compliant security_check,
                security_issues := issues security_check,
                security_details := details security_check\<rparr>)"

section \<open>Structural extraction\<close>

definition attr_get :: "element \<Rightarrow> string \<Rightarrow> string \<Rightarrow> string" where
  \<comment> \<open>\<open>element.get(name, default)\<close>\<close>
  "attr_get e k d = (case map_of (eattrib e) k of Some v \<Rightarrow> v | None \<Rightarrow> d)"

fun last_segment :: "nametest \<Rightarrow> string" where
  \<comment> \<open>\<open>pattern.split(':')[-1].split('/')[-1]\<close> of the text of a path\<close>
  "last_segment (Name l) = l"
| "last_segment (QName p l) = l"
| "last_segment (LocalName l) = ''*[local-name()=\"'' @ l @ ''\"]''"

definition found :: "element \<Rightarrow> namespaces \<Rightarrow> path list \<Rightarrow> element list" where
  \<comment> \<open>what a loop over patterns meets when each round is \<open>try: for x in root.findall(pattern,
      namespaces): ... except Exception: continue\<close> and the body does not raise\<close>
  "found root ns patterns =
     concat (map (\<lambda>pattern. case et_findall root pattern ns of None \<Rightarrow> [] | Some es \<Rightarrow> es)
               patterns)"

subsection \<open>SAPConnection.\_extract\_workflow\<close>

definition flow_element_patterns :: "nametest list list" where
  "flow_element_patterns =
     [[QName ''bpmn2'' ''startEvent'', QName ''bpmn2'' ''serviceTask'',
       QName ''bpmn2'' ''callActivity'', QName ''bpmn2'' ''endEvent'',
       QName ''bpmn2'' ''subProcess''],
      [QName ''bpmn'' ''startEvent'', QName ''bpmn'' ''serviceTask'',
       QName ''bpmn'' ''callActivity'', QName ''bpmn'' ''endEvent'', QName ''bpmn'' ''subProcess''],
      [Name ''startEvent'', Name ''serviceTask'', Name ''callActivity'', Name ''endEvent'',
       Name ''subProcess'']]"

definition process_steps :: "element \<Rightarrow> namespaces \<Rightarrow> string list" where
  \<comment> \<open>the names of the flow elements below a process, pattern by pattern\<close>
  "process_steps process ns =
     concat (map (\<lambda>tag. case et_findall process (Descendant, tag) ns of
                           None \<Rightarrow> []
                         | Some es \<Rightarrow> map (\<lambda>el. attr_get el ''name'' (last_segment tag)) es)
               (concat flow_element_patterns))"

fun first_process_with_steps :: "element list \<Rightarrow> namespaces \<Rightarrow> (string \<times> string list) option" where
  \<comment> \<open>\<open>for process in processes\<close>, left by \<open>break\<close> at the first process that has steps\<close>
  "first_process_with_steps [] ns = None"
| "first_process_with_steps (process # rest) ns =
     (let steps = process_steps process ns
      in if steps \<noteq> [] then Some (attr_get process ''name'' ''Unnamed Process'', steps)
         else first_process_with_steps rest ns)"

fun workflow_loop :: "element \<Rightarrow> namespaces \<Rightarrow> nametest list list \<Rightarrow> iflow_result \<Rightarrow> iflow_result" where
  \<comment> \<open>\<open>for process_tags in [['bpmn2:process'], ['bpmn:process'], ['process']]\<close>\<close>
  "workflow_loop root ns [] result = result"
| "workflow_loop root ns (process_tags # rest) result =
     (let processes = found root ns (map (Pair Child) process_tags)
      in if processes \<noteq> []
         then (let result1 = (case first_process_with_steps processes ns of
                                Some entry \<Rightarrow> result\<lparr>workflow := workflow result @ [entry]\<rparr>
                              | None \<Rightarrow> result)
               in if workflow result1 \<noteq> [] then result1
                  else workflow_loop root ns rest result1)
         else workflow_loop root ns rest result)"

definition extract_workflow :: "element \<Rightarrow> namespaces \<Rightarrow> iflow_result \<Rightarrow> iflow_result" where
  "extract_workflow root ns result =
     workflow_loop root ns
       [[QName ''bpmn2'' ''process''], [QName ''bpmn'' ''process''], [Name ''process'']] result"

subsection \<open>SAPConnection.\_extract\_participants\<close>

definition participant_patterns :: "path list" where
  "participant_patterns =
     [(Descendant, QName ''bpmn2'' ''participant''), (Descendant, QName ''bpmn'' ''participant''),
      (Descendant, Name ''participant''), (Descendant, LocalName ''participant'')]"

definition first_value :: "(string \<Rightarrow> bool) \<Rightarrow> (string \<times> string) list \<Rightarrow> string option" where
  \<comment> \<open>\<open>for key, value in props: if test(key): x = value; break\<close>\<close>
  "first_value test props = map_option snd (find (\<lambda>kv. test (fst kv)) props)"

definition participant_step :: "namespaces \<Rightarrow> element \<Rightarrow> iflow_result \<Rightarrow> iflow_result" where
  \<comment> \<open>the body of \<open>for participant in root.findall(pattern, namespaces)\<close>\<close>
  "participant_step ns participant result =
     (let attr_type = (case map_of (eattrib participant) ''ifl:type'' of
                         Some t \<Rightarrow> Some t
                       | None \<Rightarrow> map_of (eattrib participant) ''type'');
          name = attr_get participant ''name'' ''Unnamed'';
          props = xml_extract_properties participant ns;
          participant_type =
            (case attr_type of
               Some t \<Rightarrow> Some t
             | None \<Rightarrow> first_value (\<lambda>key. lower key \<in> set [''type'', ''participanttype'', ''role''])
                         props)
      in case truthy participant_type of
           Some t \<Rightarrow>
             if contains (lower t) ''sender''
             then result\<lparr>senders := senders result @ [Participant name props]\<rparr>
             else if contains (lower t) ''receiver'' \<or> contains (lower t) ''recevier''
             then result\<lparr>receivers := receivers result @ [Participant name props]\<rparr>
             else result
         | None \<Rightarrow>
             if ''address'' \<in> fst ` set props \<or> list_ex (\<lambda>kv. contains (lower (fst kv)) ''url'') props
             then if list_ex (\<lambda>s. contains (lower name) s) [''sender'', ''source'', ''from'']
                  then result\<lparr>senders := senders result @ [Participant name props]\<rparr>
                  else if list_ex (\<lambda>s. contains (lower name) s)
                            [''receiver'', ''target'', ''to'', ''destination'']
                  then result\<lparr>receivers := receivers result @ [Participant name props]\<rparr>
                  else result
             else result)"

definition extract_participants :: "element \<Rightarrow> namespaces \<Rightarrow> iflow_result \<Rightarrow> iflow_result" where
  "extract_participants root ns result =
     fold (participant_step ns) (found root ns participant_patterns) result"

subsection \<open>SAPConnection.\_extract\_error\_handling\<close>

definition subprocess_patterns :: "path list" where
  "subprocess_patterns =
     [(Descendant, QName ''bpmn2'' ''subProcess''), (Descendant, QName ''bpmn'' ''subProcess''),
      (Descendant, Name ''subProcess''), (Descendant, LocalName ''subProcess'')]"

definition error_event_patterns :: "path list" where
  "error_event_patterns =
     [(Descendant, QName ''bpmn2'' ''errorEventDefinition''),
      (Descendant, QName ''bpmn'' ''errorEventDefinition''),
      (Descendant, Name ''errorEventDefinition''),
      (Descendant, LocalName ''errorEventDefinition'')]"

definition error_handler_patterns :: "path list" where
  "error_handler_patterns =
     [(Descendant, Name ''errorHandler''), (Descendant, LocalName ''errorHandler''),
      (Descendant, Name ''deadLetterQueue''), (Descendant, LocalName ''deadLetterQueue'')]"

definition has_error_event :: "element \<Rightarrow> namespaces \<Rightarrow> bool" where
  \<comment> \<open>\<open>for error_pattern in error_event_patterns\<close>: a \<open>find\<close> that is not None; a \<open>find\<close>
      that raises goes on to the next pattern\<close>
  "has_error_event subprocess ns =
     list_ex (\<lambda>error_pattern. case et_find subprocess error_pattern ns of
                                 Some (Some ev) \<Rightarrow> True
                               | _ \<Rightarrow> False)
       error_event_patterns"

definition error_activity :: "element \<Rightarrow> namespaces \<Rightarrow> string option" where
  \<comment> \<open>the value of the first property with key \<open>activitytype\<close>, up to case, and \<open>error\<close> in
      its value, up to case\<close>
  "error_activity subprocess ns =
     map_option snd
       (find (\<lambda>kv. lower (fst kv) = ''activitytype'' \<and> contains (lower (snd kv)) ''error'')
          (xml_extract_properties subprocess ns))"

definition subprocess_step ::
  "namespaces \<Rightarrow> element \<Rightarrow> bool \<times> iflow_result \<Rightarrow> bool \<times> iflow_result" where
  \<comment> \<open>the body of \<open>for subprocess in root.findall(subprocess_pattern, namespaces)\<close>; the flag
      is \<open>has_error_handling\<close>\<close>
  "subprocess_step ns subprocess acc =
     (let subprocess_name = attr_get subprocess ''name'' ''Unnamed Subprocess'';
          acc1 = (if has_error_event subprocess ns
                  then (True, (snd acc)\<lparr>error_handling := error_handling (snd acc)
                          @ [(Some subprocess_name,
                              ''Handles errors with error start and end events'')]\<rparr>)
                  else acc)
      in case error_activity subprocess ns of
           Some val \<Rightarrow>
             (True, (snd acc1)\<lparr>error_handling := error_handling (snd acc1)
                      @ [(Some subprocess_name, ''Error handling subprocess: '' @ val)]\<rparr>)
         | None \<Rightarrow> acc1)"

definition handler_step :: "path \<Rightarrow> element \<Rightarrow> bool \<times> iflow_result \<Rightarrow> bool \<times> iflow_result" where
  \<comment> \<open>the body of \<open>for handler in root.findall(pattern, namespaces)\<close>\<close>
  "handler_step pattern handler acc =
     (True, (snd acc)\<lparr>error_handling := error_handling (snd acc)
              @ [(None, last_segment (snd pattern) @ '' configured'')]\<rparr>)"

definition handlers_loop ::
  "element \<Rightarrow> namespaces \<Rightarrow> path list \<Rightarrow> bool \<times> iflow_result \<Rightarrow> bool \<times> iflow_result" where
  \<comment> \<open>\<open>for pattern in error_handler_patterns\<close>\<close>
  "handlers_loop root ns patterns acc =
     fold (\<lambda>pattern acc. case et_findall root pattern ns of
                            None \<Rightarrow> acc
                          | Some handlers \<Rightarrow> fold (handler_step pattern) handlers acc)
       patterns acc"

definition error_handling_summary :: "bool \<times> iflow_result \<Rightarrow> iflow_result" where
  \<comment> \<open>\<open>result["has_proper_error_handling"] = has_error_handling\<close> and the summary entry\<close>
  "error_handling_summary acc =
     (let has_error_handling = fst acc;
          result = (snd acc)\<lparr>has_proper_error_handling := has_error_handling\<rparr>
      in if has_error_handling \<and> error_handling result = []
         then result\<lparr>error_handling := error_handling result
                @ [(None, ''Error handling properly configured with error subprocesses'')]\<rparr>
         else if error_handling result \<noteq> []
         then (if \<not> has_error_handling
               then result\<lparr>error_handling := error_handling result
                      @ [(None, ''Basic error handling elements found but no proper error subprocesses'')]\<rparr>
               else result)
         else result\<lparr>error_handling := error_handling result
                @ [(None, ''No error handling detected'')]\<rparr>)"

definition extract_error_handling :: "element \<Rightarrow> namespaces \<Rightarrow> iflow_result \<Rightarrow> iflow_result" where
  "extract_error_handling root ns result =
     error_handling_summary
       (handlers_loop root ns error_handler_patterns
          (fold (subprocess_step ns) (found root ns subprocess_patterns) (False, result)))"

subsection \<open>SAPConnection.\_extract\_with\_regex\<close>

text \<open>
  The patterns are \<^verbatim>\<open><(sender|receiver).*?type="([^"]+)"\<close> and
  \<^verbatim>\<open><[^>]*subProcess[^>]*>.*?<[^>]*errorEvent\<close>, both under \<open>re.DOTALL\<close>.
\<close>

definition connection_pattern :: regex where
  "connection_pattern =
     lit ''<'' @ [GOpen, Alt [''sender'', ''receiver''], GClose, Lazy Dot] @ lit ''type=\"''
       @ [GOpen, Plus (NoneOf ''\"''), GClose] @ lit ''\"''"

definition error_subprocess_pattern :: regex where
  "error_subprocess_pattern =
     lit ''<'' @ [Star (NoneOf ''>'')] @ lit ''subProcess'' @ [Star (NoneOf ''>'')] @ lit ''>''
       @ [Lazy Dot] @ lit ''<'' @ [Star (NoneOf ''>'')] @ lit ''errorEvent''"

definition connection_step :: "string list \<Rightarrow> iflow_result \<Rightarrow> iflow_result" where
  \<comment> \<open>the body of \<open>for conn_type, adapter_type in connection_matches\<close>\<close>
  "connection_step caps result =
     (case caps of
        [conn_type, adapter_type] \<Rightarrow>
          if lower conn_type = ''sender''
          then result\<lparr>senders := senders result @ [Connection conn_type adapter_type]\<rparr>
          else result\<lparr>receivers := receivers result @ [Connection conn_type adapter_type]\<rparr>
      | _ \<Rightarrow> result)"

definition extract_with_regex :: "string \<Rightarrow> iflow_result \<Rightarrow> iflow_result" where
  "extract_with_regex content result =
     (let r1 = fold connection_step (findall False connection_pattern content) result;
          r2 = (if contains content ''<error-handling''
                then r1\<lparr>error_handling := error_handling r1
                       @ [(None, ''Basic error handling configured'')]\<rparr> else r1);
          r3 = (if contains content ''<dead-letter-queue''
                then r2\<lparr>error_handling := error_handling r2
                       @ [(None, ''Dead letter queue configured'')]\<rparr> else r2)
      in if search False error_subprocess_pattern content
         then r3\<lparr>error_handling := error_handling r3
                  @ [(None, ''Error handling subprocess detected'')],
                has_proper_error_handling := True\<rparr>
         else r3)"

subsection \<open>SAPConnection.\_process\_iflow\_definition and \_process\_xml\_file\<close>

definition structural_namespace_sets :: "namespaces list" where
  "structural_namespace_sets =
     [ [(''bpmn2'', ''http://www.omg.org/spec/BPMN/20100524/MODEL''),
        (''ifl'', ''http:///com.sap.ifl.model/Ifl.xsd''),
        (''bpmndi'', ''http://www.omg.org/spec/BPMN/20100524/DI'')],
       [(''bpmn'', ''http://www.omg.org/spec/BPMN/20100524/MODEL''),
        (''ifl'', ''http:///com.sap.ifl.model/Ifl.xsd'')],
       [] ]"

definition extract_structure :: "element \<Rightarrow> namespaces \<Rightarrow> iflow_result \<Rightarrow> iflow_result" where
  \<comment> \<open>the extractors of the loop body that write a key of the record, in the order of the
      calls. Each of them catches what its searches raise.\<close>
  "extract_structure root ns result =
     extract_error_handling root ns (extract_participants root ns (extract_workflow root ns result))"

fun namespace_sets_loop ::
  "env \<Rightarrow> world \<Rightarrow> string \<Rightarrow> string \<Rightarrow> namespaces list \<Rightarrow> iflow_result
     \<Rightarrow> namespaces list \<times> bool \<times> iflow_result" where
  \<comment> \<open>\<open>for namespaces in namespace_sets\<close>. A round parses the content; a \<open>ParseError\<close> goes
      on to the next set, otherwise the round extracts, runs the security check, sets
      \<open>success\<close> and leaves the loop. The first component lists the sets whose round was
      entered, the second is \<open>success\<close>.\<close>
  "namespace_sets_loop e w content file_path [] result = ([], False, result)"
| "namespace_sets_loop e w content file_path (ns # rest) result =
     (case et_fromstring e content of
        Inl msg \<Rightarrow>
          (case namespace_sets_loop e w content file_path rest result of
             (tried, success, result1) \<Rightarrow> (ns # tried, success, result1))
      | Inr root \<Rightarrow>
          ([ns], True,
           integrate_security_check e w content file_path (extract_structure root ns result)))"

definition process_content :: "env \<Rightarrow> world \<Rightarrow> string \<Rightarrow> string \<Rightarrow> iflow_result \<Rightarrow> iflow_result" where
  \<comment> \<open>the loop and the fallback \<open>if not success\<close>\<close>
  "process_content e w content file_path result =
     (case namespace_sets_loop e w content file_path structural_namespace_sets result of
        (tried, success, result1) \<Rightarrow>
          if success then result1
          else integrate_security_check e w content file_path (extract_with_regex content result1))"

definition process_iflow_definition ::
  "env \<Rightarrow> world \<Rightarrow> string \<Rightarrow> string \<Rightarrow> iflow_result \<Rightarrow> iflow_result" where
  \<comment> \<open>a file that cannot be read raises into the outer handler, which records a processing
      error\<close>
  "process_iflow_definition e w iflow_file unzip_dir result =
     (case read_file w iflow_file of
        None \<Rightarrow> result
      | Some content \<Rightarrow> process_content e w content iflow_file result)"

definition process_xml_file :: "env \<Rightarrow> world \<Rightarrow> string \<Rightarrow> iflow_result \<Rightarrow> iflow_result" where
  "process_xml_file e w file_path result =
     (case read_file w file_path of
        None \<Rightarrow> result
      | Some content \<Rightarrow> process_content e w content file_path result)"

section \<open>Writing to the file system\<close>

text \<open>
  A path is identified by its text; the paths of a world are in normal form. The text of
  the message of an operating-system error is the system's own: the model writes
  \<open>OSError\<close> and the path.
\<close>

definition os_error :: "string \<Rightarrow> string" where
  "os_error p = ''OSError: '' @ p"

definition ancestors :: "string \<Rightarrow> string list" where
  \<comment> \<open>the directories above a path: its prefixes up to a slash, the root apart\<close>
  "ancestors p = map (\<lambda>i. take i p) (filter (\<lambda>i. p ! i = CHR ''/'') [1 ..< length p])"

definition makedirs :: "world \<Rightarrow> string \<Rightarrow> world option" where
  \<comment> \<open>\<open>os.makedirs(p, exist_ok=True)\<close>: None when it raises, which it does when the path
      or a directory above it is a regular file\<close>
  "makedirs w p =
     (if list_ex (is_file w) (ancestors p @ [p]) then None
      else Some (w\<lparr>fs_dirs := fs_dirs w
                     @ filter (\<lambda>d. d \<notin> set (fs_dirs w)) (remdups (ancestors p @ [p]))\<rparr>))"

definition write_file :: "world \<Rightarrow> string \<Rightarrow> string \<Rightarrow> world option" where
  \<comment> \<open>\<open>open(p, "wb")\<close> and the write: None when it raises, which it does on a directory\<close>
  "write_file w p data =
     (if p \<in> set (fs_dirs w) then None
      else Some (w\<lparr>fs_files := AList.update p data (fs_files w)\<rparr>))"

definition rmtree :: "world \<Rightarrow> string \<Rightarrow> world \<times> bool" where
  \<comment> \<open>\<open>shutil.rmtree(d)\<close>; the flag tells that it raised. It raises on a regular file and
      when the system refuses to remove a path in the tree; what else of the tree is gone
      by then depends on the order of the traversal, and the model removes nothing.\<close>
  "rmtree w d =
     (if is_file w d \<or> list_ex (\<lambda>p. under d p \<and> path_exists w p) (fs_undeletable w)
      then (w, True)
      else (w\<lparr>fs_files := filter (\<lambda>f. \<not> under d (fst f)) (fs_files w),
              fs_dirs := filter (\<lambda>p. \<not> under d p) (fs_dirs w)\<rparr>, False))"

subsection \<open>ZipFile.extract\<close>

fun split_path :: "string \<Rightarrow> string \<Rightarrow> string list" where
  \<comment> \<open>\<open>s.split('/')\<close>; the first argument is the current part, reversed\<close>
  "split_path cur [] = [rev cur]"
| "split_path cur (c # cs) =
     (if c = CHR ''/'' then rev cur # split_path [] cs else split_path (c # cur) cs)"

fun join_parts :: "string list \<Rightarrow> string" where
  \<comment> \<open>\<open>'/'.join(parts)\<close>\<close>
  "join_parts [] = []"
| "join_parts [x] = x"
| "join_parts (x # y # ys) = x @ ''/'' @ join_parts (y # ys)"

definition arcname :: "string \<Rightarrow> string" where
  \<comment> \<open>the name of a member as \<open>extract\<close> uses it: without empty parts, \<open>.\<close> and \<open>..\<close>\<close>
  "arcname name =
     join_parts (filter (\<lambda>x. x \<notin> set [[], ''.'', ''..'']) (split_path [] name))"

definition extract_target :: "string \<Rightarrow> string \<Rightarrow> string" where
  "extract_target dir name = (if arcname name = [] then dir else dir @ ''/'' @ arcname name)"

definition extract_member :: "world \<Rightarrow> zip_entries \<Rightarrow> string \<Rightarrow> string \<Rightarrow> world \<times> bool" where
  \<comment> \<open>\<open>zip_ref.extract(name, dir)\<close>; the flag tells that it raised. The directories above the
      target are made first; a member whose name ends in a slash is a directory; the data of
      an entry that cannot be read raises before the target is opened.\<close>
  "extract_member w entries name dir =
     (let target = extract_target dir name;
          upperdirs = dirname target
      in case (if upperdirs \<noteq> [] \<and> \<not> path_exists w upperdirs then makedirs w upperdirs
               else Some w) of
           None \<Rightarrow> (w, True)
         | Some w1 \<Rightarrow>
             if endswith name ''/''
             then (if target \<in> set (fs_dirs w1) then (w1, False)
                   else if is_file w1 target then (w1, True)
                   else (w1\<lparr>fs_dirs := fs_dirs w1 @ [target]\<rparr>, False))
             else (case zip_read entries name of
                     None \<Rightarrow> (w1, True)
                   | Some data \<Rightarrow>
                       (case write_file w1 target data of
                          None \<Rightarrow> (w1, True)
                        | Some w2 \<Rightarrow> (w2, False))))"

section \<open>SAPConnection.\_find\_iflow\_definition\_files\<close>

definition walk_files :: "world \<Rightarrow> string \<Rightarrow> (string \<times> string) list" where
  \<comment> \<open>the regular files that \<open>os.walk(d)\<close> lists, with their contents\<close>
  "walk_files w d = filter (\<lambda>f. under d (fst f) \<and> fst f \<noteq> d) (fs_files w)"

definition max_files_to_scan :: nat where
  "max_files_to_scan = 50"

fun first_pass :: "(string \<times> string) list \<Rightarrow> nat \<Rightarrow> string list \<Rightarrow> string list" where
  \<comment> \<open>the second argument is \<open>files_scanned\<close>; the two \<open>break\<close>s end the walk when it has
      reached the maximum\<close>
  "first_pass [] n iflow_files = iflow_files"
| "first_pass ((p, c) # rest) n iflow_files =
     (if n \<ge> max_files_to_scan then iflow_files
      else if endswith (basename p) ''.iflw'' then first_pass rest (n + 1) (iflow_files @ [p])
      else if endswith (basename p) ''.xml''
      then (if contains (take 1000 c) ''<IntegrationFlow'' \<or> contains (take 1000 c) ''<ifl:''
               \<or> contains (take 1000 c) ''<bpmn2:'' \<or> contains (take 1000 c) ''<bpmn:''
            then first_pass rest (n + 1) (iflow_files @ [p])
            else first_pass rest (n + 1) iflow_files)
      else first_pass rest n iflow_files)"

fun second_pass :: "(string \<times> string) list \<Rightarrow> nat \<Rightarrow> string list \<Rightarrow> string list" where
  "second_pass [] n iflow_files = iflow_files"
| "second_pass ((p, c) # rest) n iflow_files =
     (if n \<ge> max_files_to_scan then iflow_files
      else if endswith (basename p) ''.xml'' then second_pass rest (n + 1) (iflow_files @ [p])
      else second_pass rest n iflow_files)"

fun third_pass :: "(string \<times> string) list \<Rightarrow> nat \<Rightarrow> string list \<Rightarrow> string list" where
  "third_pass [] n iflow_files = iflow_files"
| "third_pass ((p, c) # rest) n iflow_files =
     (if n \<ge> max_files_to_scan then iflow_files
      else if \<not> endswith (basename p) ''.class'' \<and> \<not> endswith (basename p) ''.jar''
              \<and> contains (take 100 c) ''<'' \<and> contains (take 100 c) ''>''
      then third_pass rest (n + 1) (iflow_files @ [p])
      else third_pass rest n iflow_files)"

definition find_iflow_definition_files :: "world \<Rightarrow> string \<Rightarrow> string list" where
  "find_iflow_definition_files w unzip_dir =
     (let iflow_files1 = first_pass (walk_files w unzip_dir) 0 [];
          iflow_files2 = (if length iflow_files1 = 0
                          then second_pass (walk_files w unzip_dir) 0 iflow_files1
                          else iflow_files1)
      in if length iflow_files2 = 0 then third_pass (walk_files w unzip_dir) 0 iflow_files2
         else iflow_files2)"

section \<open>SAPConnection.\_process\_zip\_file\<close>

definition known_patterns :: "string list" where
  "known_patterns =
     [''.xml'', ''.iflw'', ''.project'', ''metainfo.prop'', ''MANIFEST.MF'', ''.prop'',
      ''parameters.prop'', ''IntegrationFlow'', ''META-INF'']"

definition scratch_dir :: "env \<Rightarrow> string \<Rightarrow> string" where
  \<comment> \<open>\<open>unzip_dir\<close>\<close>
  "scratch_dir e file_path = path_join (dirname file_path) (''extracted_'' @ uuid4 e)"

definition extract_essential_files :: "world \<Rightarrow> zip_entries \<Rightarrow> string \<Rightarrow> world" where
  \<comment> \<open>\<open>for file in files_to_extract\<close>; a member that raises is recorded and the loop goes
      on\<close>
  "extract_essential_files w entries unzip_dir =
     fold (\<lambda>file w1. fst (extract_member w1 entries file unzip_dir))
       (filter (\<lambda>file. list_ex (\<lambda>pattern. contains file pattern) known_patterns)
          (map fst entries))
       w"

definition zip_body ::
  "env \<Rightarrow> world \<Rightarrow> string \<Rightarrow> iflow_result \<Rightarrow> world \<times> iflow_result \<times> string option" where
  \<comment> \<open>the \<open>try\<close> block: the world and the result where it ends, and the text of the
      exception when it ends by one\<close>
  "zip_body e w file_path result =
     (let unzip_dir = scratch_dir e file_path
      in case makedirs w unzip_dir of
           None \<Rightarrow> (w, result, Some (os_error unzip_dir))
         | Some w1 \<Rightarrow>
             (case read_file w1 file_path of
                None \<Rightarrow> (w1, result, Some (os_error file_path))
              | Some bytes \<Rightarrow>
                  (case zipfile_open e bytes of
                     Inl msg \<Rightarrow> (w1, result, Some msg)
                   | Inr entries \<Rightarrow>
                       (let w2 = extract_essential_files w1 entries unzip_dir
                        in (w2,
                            fold (\<lambda>iflow_file. process_iflow_definition e w2 iflow_file unzip_dir)
                              (find_iflow_definition_files w2 unzip_dir) result,
                            None)))))"

definition process_zip_file :: "env \<Rightarrow> world \<Rightarrow> string \<Rightarrow> iflow_result \<Rightarrow> world \<times> iflow_result" where
  \<comment> \<open>\<open>try\<close>, \<open>except Exception\<close>, which sets the key \<open>error\<close>, and \<open>finally\<close>, which removes
      the directory when it exists and swallows what the removal raises\<close>
  "process_zip_file e w file_path result =
     (case zip_body e w file_path result of
        (w1, result1, raised) \<Rightarrow>
          (let result2 = (case raised of
                            None \<Rightarrow> result1
                          | Some msg \<Rightarrow> result1\<lparr>error := Some (''Extraction error: '' @ msg)\<rparr>)
           in (if path_exists w1 (scratch_dir e file_path)
               then fst (rmtree w1 (scratch_dir e file_path)) else w1,
               result2)))"

section \<open>SAPConnection.get\_iflow\_content\<close>

definition process_unknown_file :: "env \<Rightarrow> world \<Rightarrow> string \<Rightarrow> iflow_result \<Rightarrow> world \<times> iflow_result" where
  \<comment> \<open>the kind of the file by its first 1000 characters, then by its text\<close>
  "process_unknown_file e w file_path result =
     (case read_file w file_path of
        None \<Rightarrow> (w, result)
      | Some content \<Rightarrow>
          if startswith (take 1000 content) ''PK'' then process_zip_file e w file_path result
          else if contains (take 1000 content) ''<?xml'' \<or> contains (take 1000 content) ''<bpmn''
                  \<or> contains (take 1000 content) ''<ifl:''
          then (w, process_xml_file e w file_path result)
          else if startswith (strip content) ''<''
                  \<and> (contains content ''<?xml'' \<or> contains content ''<bpmn'')
          then (w, process_xml_file e w file_path result)
          else (w, extract_with_regex content result))"

datatype json_document =
    ErrorDoc string         \<comment> \<open>\<open>{"error": ...}\<close>\<close>
  | ResultDoc iflow_result  \<comment> \<open>the result dictionary\<close>

definition get_iflow_content ::
  "env \<Rightarrow> world \<Rightarrow> string option \<Rightarrow> string option \<Rightarrow> world \<times> json_document" where
  \<comment> \<open>the third argument is \<open>self.current_iflow_path\<close>, the fourth \<open>iflow_path\<close>. The call
      returns a JSON text: that of an error alone or that of the result. None of the calls in
      the two \<open>try\<close> blocks raises in the model, so their handlers have no branch.\<close>
  "get_iflow_content e w current_iflow_path iflow_path =
     (case (case truthy iflow_path of Some p \<Rightarrow> Some p | None \<Rightarrow> truthy current_iflow_path) of
        None \<Rightarrow> (w, ErrorDoc ''No IFlow path available. Run extract_iflow first.'')
      | Some file_path \<Rightarrow>
          if \<not> path_exists w file_path then (w, ErrorDoc (''File does not exist: '' @ file_path))
          else (case (if endswith file_path ''.zip''
                      then process_zip_file e w file_path initialize_result_structure
                      else if endswith file_path ''.xml'' \<or> endswith file_path ''.iflw''
                      then (w, process_xml_file e w file_path initialize_result_structure)
                      else process_unknown_file e w file_path initialize_result_structure) of
                  (w1, result) \<Rightarrow> (w1, ResultDoc result)))"

section \<open>Invariants\<close>

text \<open>
  A check is flagged by an issue when it is not compliant and lists the issue. A world is
  a frame of another for a directory when the two differ inside the directory only, as far
  as the contents of files go, and the system refuses the same removals; the directory is settled in a world when it is a directory
  there and no regular file.
\<close>

definition flagged :: "string \<Rightarrow> security_check \<Rightarrow> bool" where
  "flagged issue res = (\<not> is_compliant res \<and> issue \<in> set (issues res))"

definition frame :: "string \<Rightarrow> world \<Rightarrow> world \<Rightarrow> bool" where
  "frame d w w1 =
     (fs_undeletable w1 = fs_undeletable w \<and>
      (\<forall>p. \<not> under d p \<longrightarrow> read_file w1 p = read_file w p))"

definition settled :: "string \<Rightarrow> world \<Rightarrow> bool" where
  "settled d w = (d \<in> set (fs_dirs w) \<and> \<not> is_file w d)"

section \<open>Sample environments\<close>

text \<open>
  An archive \<open>/d/a.zip\<close> whose only entry is \<open>parameters.prop\<close> with the line
  \<open>AUTH_METHOD=Basic\<close>, and the same property file beside it.
\<close>

definition witness_env :: env where
  "witness_env =
     \<lparr>et_fromstring = (\<lambda>s. Inl ''not well-formed''),
      zipfile_open = (\<lambda>bytes. if bytes = ''PK'' then Inr [(''parameters.prop'', Some ''AUTH_METHOD=Basic'')]
                               else Inl ''File is not a zip file''),
      uuid4 = ''u''\<rparr>"

definition witness_world :: world where
  "witness_world =
     \<lparr>fs_files = [(''/d/a.zip'', ''PK''), (''/d/parameters.prop'', ''AUTH_METHOD=Basic'')],
      fs_dirs = [''/d''], fs_undeletable = []\<rparr>"


text \<open>
  Three parsed documents without namespaces: one whose sub-process is marked as an error
  sub-process by its \<open>activityType\<close> property only, one with a sender participant, a process
  and an error sub-process that has an error event definition, and one with nothing to
  find. The parser of \<open>plain_env\<close> gives the last for every content.
\<close>

definition activity_only_document :: element where
  "activity_only_document =
     Element ''definitions'' [] None
       [Element ''subProcess'' [(''name'', ''Errors'')] None
          [Element ''property'' [] None
             [Element ''key'' [] (Some ''activityType'') [],
              Element ''value'' [] (Some ''ErrorEventSubProcessTemplate'') []]]]"

definition error_event_document :: element where
  "error_event_document =
     Element ''definitions'' [] None
       [Element ''participant'' [(''name'', ''S''), (''type'', ''EndpointSender'')] None [],
        Element ''process'' [(''name'', ''P'')] None
          [Element ''startEvent'' [(''name'', ''Start'')] None [],
           Element ''subProcess'' [(''name'', ''Errors'')] None
             [Element ''startEvent'' [] None [Element ''errorEventDefinition'' [] None []]]]]"

definition empty_document :: element where
  "empty_document = Element ''root'' [] None []"

definition plain_env :: env where
  "plain_env =
     \<lparr>et_fromstring = (\<lambda>s. Inr empty_document),
      zipfile_open = (\<lambda>bytes. Inl ''File is not a zip file''),
      uuid4 = ''u''\<rparr>"

definition plain_world :: world where
  "plain_world = \<lparr>fs_files = [(''/d/flow.iflw'', ''<root/>'')], fs_dirs = [''/d''], fs_undeletable = []\<rparr>"

text \<open>
  The scenario of an archive \<open>/d/a.zip\<close> with the flow \<open>test.iflw\<close>, which declares the
  authentication method by the parameter \<open>AUTH_METHOD\<close>, and \<open>parameters.prop\<close>, which sets
  it to \<open>Basic\<close>. The content of the flow is not a well-formed document by itself, so the
  parser raises. In \<open>locked_world\<close> the system refuses to remove the extracted flow.
\<close>

definition scenario_entries :: zip_entries where
  "scenario_entries =
     [(''test.iflw'', Some ''<key>authenticationMethod</key><value>{{AUTH_METHOD}}</value>''),
      (''parameters.prop'', Some ''AUTH_METHOD=Basic'')]"

definition scenario_env :: env where
  "scenario_env =
     \<lparr>et_fromstring = (\<lambda>s. Inl ''junk after document element''),
      zipfile_open = (\<lambda>bytes. if bytes = ''PK'' then Inr scenario_entries
                               else Inl ''File is not a zip file''),
      uuid4 = ''u''\<rparr>"

definition scenario_world :: world where
  "scenario_world = \<lparr>fs_files = [(''/d/a.zip'', ''PK'')], fs_dirs = [''/d''], fs_undeletable = []\<rparr>"

definition locked_world :: world where
  "locked_world =
     \<lparr>fs_files = [(''/d/a.zip'', ''PK'')], fs_dirs = [''/d''],
      fs_undeletable = [''/d/extracted_u/test.iflw'']\<rparr>"

definition corrupt_world :: world where
  "corrupt_world = \<lparr>fs_files = [(''/d/a.zip'', ''PK-truncated'')], fs_dirs = [''/d''], fs_undeletable = []\<rparr>"

section \<open>The property extractor: what it returns\<close>

lemma extract_properties_loop_fold:
  "extract_properties_loop ls d =
     fold (\<lambda>line. AList.update (line_key line) (line_value line))
       (filter (\<lambda>line. line \<noteq> [] \<and> \<not> startswith line ''#'' \<and> CHR ''='' \<in> set line)
          (map strip ls)) d"
  by (induction ls arbitrary: d) (simp_all add: Let_def split1_def line_key_def line_value_def)

lemma extract_properties_fold:
  "extract_properties text =
     fold (\<lambda>line. AList.update (line_key line) (line_value line)) (property_lines text) []"
  by (simp add: extract_properties_def property_lines_def extract_properties_loop_fold)

lemma fold_update_distinct:
  "distinct (map fst d) \<Longrightarrow> distinct (map fst (fold (\<lambda>l. AList.update (f l) (g l)) ls d))"
  by (induction ls arbitrary: d) (simp_all add: distinct_update)

lemma fold_update_map_of:
  "map_of (fold (\<lambda>l. AList.update (f l) (g l)) ls d) =
     map_of d ++ map_of (rev (map (\<lambda>l. (f l, g l)) ls))"
  by (induction ls arbitrary: d)
    (simp_all add: update_conv' map_add_upd_left fun_eq_iff map_add_def split: option.splits)

lemma extract_properties_map_of:
  "map_of (extract_properties text) =
     map_of (rev (map (\<lambda>line. (line_key line, line_value line)) (property_lines text)))"
  by (simp add: extract_properties_fold fold_update_map_of)

lemma extract_properties_distinct: "distinct (map fst (extract_properties text))"
  by (simp add: extract_properties_fold fold_update_distinct)

text \<open>
  Claim C8. For every property-file text the extractor returns a dictionary whose keys are
  exactly the trimmed keys of the lines that, once trimmed, are not empty, do not start with
  \<open>#\<close> and contain \<open>=\<close>; every entry is the trimmed key and the trimmed value of such a
  line, split at its first \<open>=\<close>; the entry of a line is in the dictionary unless a later
  line has the same key. A line without \<open>=\<close> is no such line, so it gives no key. The
  extractor is a function of the text alone, so parsing a text twice gives the same
  dictionary.
\<close>

theorem extract_properties_entries:
  "distinct (map fst (extract_properties text)) \<and>
   fst ` set (extract_properties text) = line_key ` set (property_lines text) \<and>
   (\<forall>k v. (k, v) \<in> set (extract_properties text) \<longrightarrow>
      (\<exists>line \<in> set (property_lines text). k = line_key line \<and> v = line_value line)) \<and>
   (\<forall>before line after. property_lines text = before @ line # after \<and>
        line_key line \<notin> line_key ` set after \<longrightarrow>
      (line_key line, line_value line) \<in> set (extract_properties text))"
proof (intro conjI allI impI)
  let ?kv = "\<lambda>line. (line_key line, line_value line)"
  show d: "distinct (map fst (extract_properties text))"
    by (rule extract_properties_distinct)
  have "dom (map_of (extract_properties text)) = line_key ` set (property_lines text)"
    by (simp add: extract_properties_map_of dom_map_of_conv_image_fst image_image)
  then show "fst ` set (extract_properties text) = line_key ` set (property_lines text)"
    by (simp add: dom_map_of_conv_image_fst)
  { fix k v assume "(k, v) \<in> set (extract_properties text)"
    with d have "map_of (extract_properties text) k = Some v" by simp
    then have "map_of (rev (map ?kv (property_lines text))) k = Some v"
      by (simp add: extract_properties_map_of)
    then have "(k, v) \<in> set (rev (map ?kv (property_lines text)))"
      by (rule map_of_SomeD)
    then show "\<exists>line \<in> set (property_lines text). k = line_key line \<and> v = line_value line"
      by auto }
  { fix before line after
    assume a: "property_lines text = before @ line # after \<and>
               line_key line \<notin> line_key ` set after"
    then have "map_of (rev (map ?kv after)) (line_key line) = None"
      by (simp add: map_of_eq_None_iff image_image)
    with a have "map_of (rev (map ?kv (property_lines text))) (line_key line)
                 = Some (line_value line)"
      by (simp add: map_add_def)
    then have "map_of (extract_properties text) (line_key line) = Some (line_value line)"
      by (simp add: extract_properties_map_of)
    then show "(line_key line, line_value line) \<in> set (extract_properties text)"
      by (rule map_of_SomeD) }
qed

lemma property_lines_example:
  "property_lines ''a = 1\<newline># c\<newline>b=2=3\<newline>nokey\<newline>a=4'' = [''a = 1'', ''b=2=3'', ''a=4'']"
  by code_simp

lemma line_key_example: "map line_key [''a = 1'', ''b=2=3'', ''a=4''] = [''a'', ''b'', ''a'']"
  by code_simp

lemma line_value_example: "map line_value [''a = 1'', ''b=2=3'', ''a=4''] = [''1'', ''2=3'', ''4'']"
  by code_simp

theorem extract_properties_entries_witness:
  "property_lines ''a = 1\<newline># c\<newline>b=2=3\<newline>nokey\<newline>a=4'' = [''a = 1'', ''b=2=3''] @ ''a=4'' # []
   \<and> (''a'', ''4'') \<in> set (extract_properties ''a = 1\<newline># c\<newline>b=2=3\<newline>nokey\<newline>a=4'')
   \<and> fst ` set (extract_properties ''a = 1\<newline># c\<newline>b=2=3\<newline>nokey\<newline>a=4'') = {''a'', ''b''}"
proof -
  let ?t = "''a = 1\<newline># c\<newline>b=2=3\<newline>nokey\<newline>a=4''"
  have pl: "property_lines ?t = [''a = 1'', ''b=2=3''] @ ''a=4'' # []"
    using property_lines_example by simp
  have k: "line_key ''a=4'' = ''a''" "line_key ''a = 1'' = ''a''" "line_key ''b=2=3'' = ''b''"
    using line_key_example by simp_all
  have v: "line_value ''a=4'' = ''4''"
    using line_value_example by simp
  have fresh: "line_key ''a=4'' \<notin> line_key ` set []" by simp
  from extract_properties_entries [of ?t] pl fresh
  have "(line_key ''a=4'', line_value ''a=4'') \<in> set (extract_properties ?t)"
    by blast
  moreover from extract_properties_entries [of ?t]
  have "fst ` set (extract_properties ?t) = line_key ` set (property_lines ?t)"
    by blast
  ultimately show ?thesis
    using pl k v by (simp add: insert_commute)
qed

section \<open>The security check: what survives its stages\<close>

lemma fold_preserves:
  assumes "\<And>x r. P r \<Longrightarrow> P (f x r)" and "P r"
  shows "P (fold f xs r)"
  using assms(2) by (induction xs arbitrary: r) (simp_all add: assms(1))

lemma fold_establishes:
  assumes "x \<in> set xs" and "\<And>r. P (f x r)" and "\<And>y r. P r \<Longrightarrow> P (f y r)"
  shows "P (fold f xs r)"
  using assms(1)
proof (induction xs arbitrary: r)
  case Nil
  then show ?case by simp
next
  case (Cons y ys)
  show ?case
  proof (cases "x = y")
    case True
    then show ?thesis using assms(2) assms(3) by (simp add: fold_preserves)
  next
    case False
    with Cons show ?thesis by simp
  qed
qed

lemma fold_flagged:
  assumes "\<And>x r. flagged i r \<Longrightarrow> flagged i (f x r)" and "flagged i r"
  shows "flagged i (fold f xs r)"
  using assms(2) by (induction xs arbitrary: r) (simp_all add: assms(1))

lemma flagged_add_method: "flagged i r \<Longrightarrow> flagged i (add_method p e r)"
  by (simp add: flagged_def add_method_def)

lemma flagged_append_method: "flagged i r \<Longrightarrow> flagged i (append_method e r)"
  by (simp add: flagged_def append_method_def)

lemma flagged_flag_basic: "flagged i r \<Longrightarrow> flagged i (flag_basic j r)"
  by (simp add: flagged_def flag_basic_def)

lemma flag_basic_flagged: "flagged i (flag_basic i r)"
  by (simp add: flagged_def flag_basic_def)

lemma flagged_details: "flagged i r \<Longrightarrow> flagged i (r\<lparr>details := d\<rparr>)"
  by (simp add: flagged_def)

lemma flagged_direct_method_step: "flagged i r \<Longrightarrow> flagged i (direct_method_step m r)"
  by (simp add: direct_method_step_def Let_def flagged_add_method flagged_flag_basic)

lemma is_basic_nonempty: "is_basic s \<Longrightarrow> s \<noteq> []"
  by (auto simp: is_basic_def lower_def)

lemma direct_method_step_flags:
  "is_basic (strip m) \<Longrightarrow> i = ''Direct Basic Authentication detected: '' @ quoted (strip m) \<Longrightarrow>
   flagged i (direct_method_step m r)"
  unfolding direct_method_step_def Let_def
  by (simp only: is_basic_nonempty if_True if_False not_False_eq_True flag_basic_flagged)

lemma flagged_param_step: "flagged i r \<Longrightarrow> flagged i (param_step ps p r)"
  by (simp add: param_step_def Let_def flagged_add_method flagged_flag_basic flagged_details
      split: option.splits)

lemma flagged_flow_property_step: "flagged i r \<Longrightarrow> flagged i (flow_property_step ps kv r)"
  by (simp add: flow_property_step_def Let_def flagged_add_method flagged_flag_basic
      flagged_details split: option.splits prod.splits)

lemma flagged_flows_step: "flagged i r \<Longrightarrow> flagged i (flows_step ps ns flows r)"
  unfolding flows_step_def
  by (erule fold_flagged [rotated], erule fold_flagged [rotated])
    (rule flagged_flow_property_step)

lemma flagged_flow_patterns_loop:
  "flagged i (snd acc) \<Longrightarrow> flagged i (snd (flow_patterns_loop root ps ns pats acc))"
  by (induction root ps ns pats acc rule: flow_patterns_loop.induct)
    (simp_all add: flagged_flows_step split: option.splits)

lemma flagged_flow_namespaces_loop:
  "flagged i r \<Longrightarrow> flagged i (flow_namespaces_loop root ps nss r)"
proof (induction nss arbitrary: r)
  case Nil
  then show ?case by simp
next
  case (Cons ns nss)
  have "flagged i (snd (flow_patterns_loop root ps ns message_flow_patterns (False, r)))"
    using Cons.prems by (simp add: flagged_flow_patterns_loop)
  then show ?case
    by (auto simp: Cons.IH split: prod.splits)
qed

lemma flagged_scan_message_flows:
  "flagged i r \<Longrightarrow> flagged i (scan_message_flows fromstring content ps r)"
  by (simp add: scan_message_flows_def flagged_flow_namespaces_loop flagged_details
      split: sum.splits)

lemma flagged_scan_parameterized:
  "flagged i r \<Longrightarrow> flagged i (scan_parameterized content ps r)"
  unfolding scan_parameterized_def
  by (erule fold_flagged [rotated], erule fold_flagged [rotated])
    (rule flagged_param_step)

lemma flagged_fallback_patterns: "flagged i r \<Longrightarrow> flagged i (fallback_patterns content r)"
  by (simp add: fallback_patterns_def Let_def flagged_append_method flagged_flag_basic)

lemma flagged_property_step: "flagged i r \<Longrightarrow> flagged i (property_step kv r)"
  by (simp add: property_step_def Let_def flagged_append_method split: prod.splits)

lemma flagged_deduplicate: "flagged i r \<Longrightarrow> flagged i (deduplicate r)"
  by (simp add: flagged_def deduplicate_def)

lemma flagged_final_policy: "flagged i r \<Longrightarrow> flagged i (final_policy content r)"
  by (simp add: flagged_def final_policy_def)

lemma scan_direct_flags:
  assumes "pattern \<in> set auth_patterns" and "m \<in> set (findall1 pattern content)"
    and "is_basic (strip m)"
    and i: "i = ''Direct Basic Authentication detected: '' @ quoted (strip m)"
  shows "flagged i (scan_direct content r)"
  unfolding scan_direct_def
proof (rule fold_establishes [OF assms(1)])
  fix r
  show "flagged i (fold direct_method_step (findall1 pattern content) r)"
  proof (rule fold_establishes [OF assms(2)])
    fix r show "flagged i (direct_method_step m r)"
      using assms(3) i by (rule direct_method_step_flags)
  next
    fix y r assume "flagged i r"
    then show "flagged i (direct_method_step y r)" by (rule flagged_direct_method_step)
  qed
next
  fix p r
  assume "flagged i r"
  then show "flagged i (fold direct_method_step (findall1 p content) r)"
    by (rule fold_flagged [rotated]) (rule flagged_direct_method_step)
qed

lemma flagged_fold_property_step:
  "flagged i r \<Longrightarrow> flagged i (fold property_step properties r)"
  by (erule fold_flagged [rotated]) (rule flagged_property_step)

lemma check_security_compliance_flagged:
  assumes "flagged i (scan_direct content
             \<lparr>detected_methods = [], is_compliant = True, issues = [], details = []\<rparr>)"
  shows "flagged i (check_security_compliance fromstring content properties)"
  unfolding check_security_compliance_def detection_stages_def
  apply (rule flagged_final_policy)
  apply (rule flagged_deduplicate)
  apply (rule flagged_fold_property_step)
  apply (rule flagged_fallback_patterns)
  apply (rule flagged_scan_message_flows)
  apply (rule flagged_scan_parameterized)
  apply (rule assms)
  done

text \<open>
  Claim C3. Whenever one of the six direct patterns matches the content with a value that,
  trimmed as the check trims it, equals \<open>basic\<close> or \<open>basic authentication\<close> up to case, the
  result of the check is not compliant, and its issues, which are then not empty, contain
  the issue that names this value. Nothing the later stages do takes this back.
\<close>

theorem direct_basic_not_compliant:
  assumes "pattern \<in> set auth_patterns"
    and "m \<in> set (findall1 pattern content)"
    and "lower (strip m) = ''basic'' \<or> lower (strip m) = ''basic authentication''"
  shows "\<not> is_compliant (check_security_compliance fromstring content properties) \<and>
         issues (check_security_compliance fromstring content properties) \<noteq> [] \<and>
         (''Direct Basic Authentication detected: '' @ quoted (strip m))
           \<in> set (issues (check_security_compliance fromstring content properties))"
proof -
  define i where "i = ''Direct Basic Authentication detected: '' @ quoted (strip m)"
  from assms(3) have "is_basic (strip m)" unfolding is_basic_def by auto
  with assms(1,2)
  have "flagged i (scan_direct content
          \<lparr>detected_methods = [], is_compliant = True, issues = [], details = []\<rparr>)"
    using i_def by (rule scan_direct_flags)
  then have "flagged i (check_security_compliance fromstring content properties)"
    by (rule check_security_compliance_flagged)
  then have "\<not> is_compliant (check_security_compliance fromstring content properties) \<and>
         issues (check_security_compliance fromstring content properties) \<noteq> [] \<and>
         i \<in> set (issues (check_security_compliance fromstring content properties))"
    by (auto simp: flagged_def)
  then show ?thesis unfolding i_def .
qed


lemma witness_pattern: "last auth_patterns \<in> set auth_patterns"
  by (simp add: auth_patterns_def)

lemma witness_match: "''Basic'' \<in> set (findall1 (last auth_patterns) ''authMethod=\"Basic\"'')"
  by code_simp

lemma witness_basic: "lower (strip ''Basic'') = ''basic''"
  by code_simp

theorem direct_basic_not_compliant_witness:
  "last auth_patterns \<in> set auth_patterns \<and>
   ''Basic'' \<in> set (findall1 (last auth_patterns) ''authMethod=\"Basic\"'') \<and>
   lower (strip ''Basic'') = ''basic'' \<and>
   \<not> is_compliant (check_security_compliance (\<lambda>s. Inl ''not well-formed'')
         ''authMethod=\"Basic\"'' []) \<and>
   (''Direct Basic Authentication detected: '' @ quoted (strip ''Basic''))
     \<in> set (issues (check_security_compliance (\<lambda>s. Inl ''not well-formed'')
         ''authMethod=\"Basic\"'' []))"
  using witness_pattern witness_match witness_basic
    direct_basic_not_compliant [OF witness_pattern witness_match disjI1 [OF witness_basic],
      of "\<lambda>s. Inl ''not well-formed''" "[]"]
  by blast

section \<open>The final policy\<close>

lemma rmatch_alt_group:
  "rmatch True [Alt ls, GClose] s [g] [] \<noteq> None \<longleftrightarrow> (\<exists>l \<in> set ls. lit_matches True l s)"
  by (induction ls) (simp_all split: option.splits)

lemma rmatch_group_alt:
  "rmatch True [GOpen, Alt ls, GClose] s [] [] \<noteq> None
     \<longleftrightarrow> (\<exists>l \<in> set ls. startswith (lower s) (lower l))"
proof -
  have "rmatch True [GOpen, Alt ls, GClose] s [] [] = rmatch True [Alt ls, GClose] s [[]] []"
    by (simp only: rmatch.simps(2))
  then show ?thesis
    using rmatch_alt_group [of ls s "[]"] by (simp only: lit_matches_def if_True)
qed

lemma startswith_empty: "startswith [] p \<longleftrightarrow> p = []"
  by (cases p) simp_all

lemma search_alt_group:
  "search True [GOpen, Alt ls, GClose] s \<longleftrightarrow> (\<exists>l \<in> set ls. contains (lower s) (lower l))"
proof (induction s)
  case Nil
  show ?case
    by (simp only: search.simps rmatch_group_alt)
       (simp add: lower_def startswith_empty)
next
  case (Cons c cs)
  have "search True [GOpen, Alt ls, GClose] (c # cs) \<longleftrightarrow>
          (\<exists>l \<in> set ls. startswith (lower (c # cs)) (lower l))
          \<or> search True [GOpen, Alt ls, GClose] cs"
    by (simp only: search.simps rmatch_group_alt)
  with Cons show ?case
    by (auto simp: lower_def)
qed

lemma external_call_literals:
  "map lower [''https://'', ''http://'', ''endpoint'', ''url'', ''uri'']
     = [''https://'', ''http://'', ''endpoint'', ''url'', ''uri'']"
  by code_simp

lemma search_external_call:
  "search True external_call_pattern content \<longleftrightarrow>
     contains (lower content) ''http://'' \<or> contains (lower content) ''https://'' \<or>
     contains (lower content) ''endpoint'' \<or> contains (lower content) ''url'' \<or>
     contains (lower content) ''uri''"
proof -
  have "search True external_call_pattern content \<longleftrightarrow>
        (\<exists>l \<in> set (map lower [''https://'', ''http://'', ''endpoint'', ''url'', ''uri'']).
            contains (lower content) l)"
    unfolding external_call_pattern_def search_alt_group by simp
  then show ?thesis
    unfolding external_call_literals by auto
qed

text \<open>
  Claim C4. When the detection stages leave \<open>detected_methods\<close> empty and the content,
  lower-cased, contains \<open>http://\<close>, \<open>https://\<close>, \<open>endpoint\<close>, \<open>url\<close> or \<open>uri\<close>, which is
  what the search for the external-call pattern decides, the result is not compliant and
  its issues contain the finding of a possibly missing authentication.
\<close>

theorem missing_authentication_flagged:
  assumes "detected_methods (detection_stages fromstring content properties) = []"
    and "contains (lower content) ''http://'' \<or> contains (lower content) ''https://'' \<or>
         contains (lower content) ''endpoint'' \<or> contains (lower content) ''url'' \<or>
         contains (lower content) ''uri''"
  shows "\<not> is_compliant (check_security_compliance fromstring content properties) \<and>
         ''Possible missing authentication for external services''
           \<in> set (issues (check_security_compliance fromstring content properties))"
proof -
  from assms(2) have "search True external_call_pattern content"
    by (simp only: search_external_call)
  with assms(1) show ?thesis
    by (simp add: check_security_compliance_def final_policy_def)
qed

lemma witness_no_methods:
  "detected_methods (detection_stages (\<lambda>s. Inl ''not well-formed'') ''see HTTPS://x'' []) = []"
  by code_simp

lemma witness_https: "contains (lower ''see HTTPS://x'') ''https://''"
  by code_simp

theorem missing_authentication_flagged_witness:
  "detected_methods (detection_stages (\<lambda>s. Inl ''not well-formed'') ''see HTTPS://x'' []) = [] \<and>
   contains (lower ''see HTTPS://x'') ''https://'' \<and>
   \<not> is_compliant (check_security_compliance (\<lambda>s. Inl ''not well-formed'') ''see HTTPS://x'' []) \<and>
   ''Possible missing authentication for external services''
     \<in> set (issues (check_security_compliance (\<lambda>s. Inl ''not well-formed'')
                      ''see HTTPS://x'' []))"
  using witness_no_methods witness_https
    missing_authentication_flagged [OF witness_no_methods disjI2 [OF disjI1 [OF witness_https]]]
  by blast

section \<open>Resolving a parameter against the properties\<close>

lemma resolve_parameter_find:
  "resolve_parameter properties p = map_option snd (find (\<lambda>kv. key_matches (fst kv) p) properties)"
  by (induction properties p rule: resolve_parameter.induct) (simp_all add: key_matches_def)

text \<open>
  Claim C7, as the code has it. The resolution takes the first property, in the order of
  the dictionary, whose key equals the parameter name, ends with \<open>_\<close> and the name, or
  equals the name up to case: a value is the result exactly when it belongs to a key
  that matches in one of the three ways and no earlier key matches in any of them. The
  three ways have no precedence among themselves.
\<close>

theorem resolve_parameter_first_match:
  "resolve_parameter properties p
     = map_option snd (find (\<lambda>kv. key_matches (fst kv) p) properties) \<and>
   (resolve_parameter properties p = Some v \<longleftrightarrow>
      (\<exists>i < length properties.
          key_matches (fst (properties ! i)) p \<and> snd (properties ! i) = v \<and>
          (\<forall>j < i. \<not> key_matches (fst (properties ! j)) p))) \<and>
   (resolve_parameter properties p = None \<longleftrightarrow>
      (\<forall>kv \<in> set properties. \<not> key_matches (fst kv) p))"
proof (intro conjI)
  show "resolve_parameter properties p
          = map_option snd (find (\<lambda>kv. key_matches (fst kv) p) properties)"
    by (rule resolve_parameter_find)
  show "resolve_parameter properties p = Some v \<longleftrightarrow>
      (\<exists>i < length properties.
          key_matches (fst (properties ! i)) p \<and> snd (properties ! i) = v \<and>
          (\<forall>j < i. \<not> key_matches (fst (properties ! j)) p))"
  proof -
    let ?P = "\<lambda>kv. key_matches (fst kv) p"
    have "map_option snd (find ?P properties) = Some v
          \<longleftrightarrow> (\<exists>kv. find ?P properties = Some kv \<and> snd kv = v)"
      by (cases "find ?P properties") auto
    also have "\<dots> \<longleftrightarrow> (\<exists>kv. (\<exists>i < length properties. ?P (properties ! i) \<and> kv = properties ! i
                       \<and> (\<forall>j < i. \<not> ?P (properties ! j))) \<and> snd kv = v)"
      by (simp only: find_Some_iff)
    also have "\<dots> \<longleftrightarrow> (\<exists>i < length properties. ?P (properties ! i) \<and> snd (properties ! i) = v
                       \<and> (\<forall>j < i. \<not> ?P (properties ! j)))"
      by blast
    finally show ?thesis
      unfolding resolve_parameter_find .
  qed
  show "resolve_parameter properties p = None \<longleftrightarrow>
      (\<forall>kv \<in> set properties. \<not> key_matches (fst kv) p)"
    unfolding resolve_parameter_find by (auto simp: find_None_iff)
qed

lemma witness_resolution:
  "resolve_parameter [(''dev_AUTH'', ''Basic''), (''AUTH'', ''OAuth'')] ''AUTH'' = Some ''Basic''"
  by code_simp

theorem resolve_parameter_first_match_witness:
  "resolve_parameter [(''dev_AUTH'', ''Basic''), (''AUTH'', ''OAuth'')] ''AUTH'' = Some ''Basic'' \<and>
   (\<exists>i < length [(''dev_AUTH'', ''Basic''), (''AUTH'', ''OAuth'')].
       key_matches (fst ([(''dev_AUTH'', ''Basic''), (''AUTH'', ''OAuth'')] ! i)) ''AUTH'' \<and>
       snd ([(''dev_AUTH'', ''Basic''), (''AUTH'', ''OAuth'')] ! i) = ''Basic'' \<and>
       (\<forall>j < i. \<not> key_matches (fst ([(''dev_AUTH'', ''Basic''), (''AUTH'', ''OAuth'')] ! j)) ''AUTH''))"
  using witness_resolution
    resolve_parameter_first_match
      [of "[(''dev_AUTH'', ''Basic''), (''AUTH'', ''OAuth'')]" "''AUTH''" "''Basic''"]
  by blast

text \<open>
  The claim as the specification words it fails: with the properties \<open>dev_AUTH=Basic\<close> and
  \<open>AUTH=OAuth\<close>, in this order, the parameter \<open>AUTH\<close> has an exactly matching key, yet it
  resolves to the value of the key with the suffix, which comes first.
\<close>

theorem resolve_parameter_precedence_counterexample:
  "resolve_parameter [(''dev_AUTH'', ''Basic''), (''AUTH'', ''OAuth'')] ''AUTH'' = Some ''Basic'' \<and>
   resolve_by_precedence [(''dev_AUTH'', ''Basic''), (''AUTH'', ''OAuth'')] ''AUTH'' = Some ''OAuth''"
  by code_simp

section \<open>The properties that reach the security check\<close>

lemma self_extract_properties_raises: "self_extract_properties content = Inl ''AttributeError''"
  by (simp add: self_extract_properties_def SAPConnection_attributes_def)

lemma zip_properties_loop_unchanged:
  "zip_properties_loop entries property_files properties = properties"
  by (induction property_files arbitrary: properties)
    (simp_all add: self_extract_properties_raises split: option.splits)

lemma properties_from_zip_empty: "properties_from_zip e w iflow_path = []"
  by (simp add: properties_from_zip_def zip_properties_loop_unchanged
      split: option.splits sum.splits)

lemma properties_from_directory_unchanged:
  "properties_from_directory w iflow_path properties = properties"
  by (simp add: properties_from_directory_def Let_def self_extract_properties_raises
      split: option.splits)

text \<open>
  Claim C2. For every environment, every file system, every content and every path, the
  properties that \<open>integrate_security_check\<close> passes to \<open>check_security_compliance\<close> are the
  empty dictionary: the instance has no attribute \<open>extract_properties\<close>, so each of the
  two calls raises, and the enclosing handlers leave the dictionary as it was. The security
  fields of the result are therefore those of the check on the content with no property.
\<close>

theorem integrate_security_check_no_properties:
  "collect_properties e w iflow_path = [] \<and>
   ''extract_properties'' \<notin> set SAPConnection_attributes \<and>
   integrate_security_check e w content iflow_path result =
     result\<lparr>security := detected_methods (check_security_compliance (et_fromstring e) content []),
            security_compliant := is_compliant (check_security_compliance (et_fromstring e) content []),
            security_issues := issues (check_security_compliance (et_fromstring e) content []),
            security_details := details (check_security_compliance (et_fromstring e) content [])\<rparr>"
proof -
  have c: "collect_properties e w iflow_path = []"
    by (simp add: collect_properties_def properties_from_zip_empty
        properties_from_directory_unchanged)
  have a: "''extract_properties'' \<notin> set SAPConnection_attributes"
    by (simp add: SAPConnection_attributes_def)
  show ?thesis
    using a by (simp add: integrate_security_check_def c Let_def)
qed

theorem integrate_security_check_no_properties_witness:
  "path_exists witness_world (path_join (dirname ''/d/a.zip'') ''parameters.prop'') \<and>
   zipfile_open witness_env ''PK'' = Inr [(''parameters.prop'', Some ''AUTH_METHOD=Basic'')] \<and>
   collect_properties witness_env witness_world ''/d/a.zip'' = []"
proof -
  have "path_exists witness_world (path_join (dirname ''/d/a.zip'') ''parameters.prop'')"
    by code_simp
  moreover have "zipfile_open witness_env ''PK''
                 = Inr [(''parameters.prop'', Some ''AUTH_METHOD=Basic'')]"
    by (simp add: witness_env_def)
  ultimately show ?thesis
    using integrate_security_check_no_properties [of witness_env witness_world "''/d/a.zip''"]
    by blast
qed

section \<open>Error handling: when the summary flag is set\<close>

lemma summary_flag: "has_proper_error_handling (error_handling_summary acc) = fst acc"
  by (simp add: error_handling_summary_def Let_def)

lemma handler_fold_flag:
  "fst (fold (handler_step pattern) handlers acc) = (fst acc \<or> handlers \<noteq> [])"
  by (induction handlers arbitrary: acc) (auto simp: handler_step_def)

lemma handlers_loop_flag:
  "fst (handlers_loop root ns patterns acc) = (fst acc \<or> found root ns patterns \<noteq> [])"
  unfolding handlers_loop_def found_def
  by (induction patterns arbitrary: acc) (auto simp: handler_fold_flag split: option.splits)

lemma subprocess_step_flag:
  "fst (subprocess_step ns sp acc)
     = (fst acc \<or> has_error_event sp ns \<or> error_activity sp ns \<noteq> None)"
  by (auto simp: subprocess_step_def Let_def split: option.splits)

lemma subprocess_fold_flag:
  "fst (fold (subprocess_step ns) sps acc)
     = (fst acc \<or> (\<exists>sp \<in> set sps. has_error_event sp ns \<or> error_activity sp ns \<noteq> None))"
  by (induction sps arbitrary: acc) (auto simp: subprocess_step_flag)

lemma extract_error_handling_flag:
  "has_proper_error_handling (extract_error_handling root ns result) \<longleftrightarrow>
     (\<exists>sp \<in> set (found root ns subprocess_patterns).
         has_error_event sp ns \<or> error_activity sp ns \<noteq> None)
     \<or> found root ns error_handler_patterns \<noteq> []"
  by (simp add: extract_error_handling_def summary_flag handlers_loop_flag subprocess_fold_flag)

lemma extract_with_regex_flag:
  "has_proper_error_handling (extract_with_regex content result) \<longleftrightarrow>
     has_proper_error_handling result \<or> search False error_subprocess_pattern content"
proof -
  have "has_proper_error_handling (fold connection_step ms result) = has_proper_error_handling result"
    for ms
    by (induction ms arbitrary: result)
      (simp_all add: connection_step_def split: list.splits)
  then show ?thesis
    by (simp add: extract_with_regex_def Let_def)
qed

text \<open>
  Claim C5, as the code has it by design. After the structural extraction of a parsed
  document in which no \<open>errorHandler\<close> and no \<open>deadLetterQueue\<close> element is found, the flag
  \<open>has_proper_error_handling\<close> is true exactly when a sub-process was found that contains
  an error event definition or that has an \<open>activityType\<close> property whose value contains
  \<open>error\<close>. On the regular-expression path the flag is set by a sub-process tag followed by
  an error event only: the texts \<open><error-handling\<close> and \<open><dead-letter-queue\<close> add an entry
  and leave the flag as it was.
\<close>

theorem proper_error_handling_by_subprocess:
  "(found root ns error_handler_patterns = [] \<longrightarrow>
      (has_proper_error_handling (extract_error_handling root ns result) \<longleftrightarrow>
         (\<exists>sp \<in> set (found root ns subprocess_patterns).
             has_error_event sp ns \<or> error_activity sp ns \<noteq> None))) \<and>
   (has_proper_error_handling (extract_with_regex content result) \<longleftrightarrow>
      has_proper_error_handling result \<or> search False error_subprocess_pattern content)"
  by (simp add: extract_error_handling_flag extract_with_regex_flag)

lemma witness_no_handlers:
  "found error_event_document (hd structural_namespace_sets) error_handler_patterns = []"
  by code_simp

lemma witness_error_event:
  "list_ex (\<lambda>sp. has_error_event sp (hd structural_namespace_sets))
     (found error_event_document (hd structural_namespace_sets) subprocess_patterns)"
  by code_simp

theorem proper_error_handling_by_subprocess_witness:
  "found error_event_document (hd structural_namespace_sets) error_handler_patterns = [] \<and>
   list_ex (\<lambda>sp. has_error_event sp (hd structural_namespace_sets))
     (found error_event_document (hd structural_namespace_sets) subprocess_patterns) \<and>
   has_proper_error_handling
     (extract_error_handling error_event_document (hd structural_namespace_sets)
        initialize_result_structure)"
proof -
  from witness_error_event
  have "\<exists>sp \<in> set (found error_event_document (hd structural_namespace_sets) subprocess_patterns).
          has_error_event sp (hd structural_namespace_sets)
          \<or> error_activity sp (hd structural_namespace_sets) \<noteq> None"
    unfolding list_ex_iff by blast
  with witness_no_handlers witness_error_event
    proper_error_handling_by_subprocess
      [of error_event_document "hd structural_namespace_sets" initialize_result_structure]
  show ?thesis by blast
qed

text \<open>
  The claim as the specification words it fails: the sub-process of this document has the
  property \<open>activityType = ErrorEventSubProcessTemplate\<close> and no error event definition, no
  element of the document is one, and the flag is true.
\<close>

theorem proper_error_handling_counterexample:
  "has_proper_error_handling
     (extract_error_handling activity_only_document (hd structural_namespace_sets)
        initialize_result_structure) \<and>
   \<not> list_ex (\<lambda>sp. has_error_event sp (hd structural_namespace_sets))
       (found activity_only_document (hd structural_namespace_sets) subprocess_patterns) \<and>
   \<not> list_ex (\<lambda>el. etag el = ''errorEventDefinition'') (descendants activity_only_document)"
  by code_simp

section \<open>The loop over the namespace sets\<close>

lemma namespace_sets_loop_parse_error:
  "et_fromstring e content = Inl msg \<Longrightarrow>
   namespace_sets_loop e w content file_path nss result = (nss, False, result)"
  by (induction nss) simp_all

text \<open>
  Claim C6, as the code has it. The namespace sets are tried in order, and the loop is left
  at the first set under which the content parses: its round extracts, runs the security
  check and sets \<open>success\<close>, whether or not a participant or a process was found; no later
  set is tried, and the result is the extraction under that set. Every round parses the
  same content, so when the content parses the first set is the only one tried; when it
  does not, all sets are tried, none extracts, and the regular-expression fallback runs.
\<close>

theorem namespace_loop_stops_at_first_parse:
  "(et_fromstring e content = Inr root \<longrightarrow>
      namespace_sets_loop e w content file_path (ns # rest) result
        = ([ns], True,
           integrate_security_check e w content file_path (extract_structure root ns result)) \<and>
      process_content e w content file_path result
        = integrate_security_check e w content file_path
            (extract_structure root (hd structural_namespace_sets) result)) \<and>
   (et_fromstring e content = Inl msg \<longrightarrow>
      namespace_sets_loop e w content file_path nss result = (nss, False, result) \<and>
      process_content e w content file_path result
        = integrate_security_check e w content file_path (extract_with_regex content result))"
  by (simp add: namespace_sets_loop_parse_error process_content_def
      structural_namespace_sets_def)

theorem namespace_loop_stops_at_first_parse_witness:
  "et_fromstring plain_env ''<root/>'' = Inr empty_document \<and>
   fst (namespace_sets_loop plain_env plain_world ''<root/>'' ''/d/flow.iflw''
          structural_namespace_sets initialize_result_structure)
     = [hd structural_namespace_sets]"
proof -
  have p: "et_fromstring plain_env ''<root/>'' = Inr empty_document"
    by (simp add: plain_env_def)
  have s: "structural_namespace_sets
           = hd structural_namespace_sets # tl structural_namespace_sets"
    by (simp add: structural_namespace_sets_def)
  from p namespace_loop_stops_at_first_parse
    [of plain_env "''<root/>''" empty_document plain_world "''/d/flow.iflw''"
       "hd structural_namespace_sets" "tl structural_namespace_sets" initialize_result_structure]
  have "fst (namespace_sets_loop plain_env plain_world ''<root/>'' ''/d/flow.iflw''
          (hd structural_namespace_sets # tl structural_namespace_sets)
          initialize_result_structure) = [hd structural_namespace_sets]"
    by simp
  with p s show ?thesis by simp
qed

text \<open>
  The claim as the specification words it fails: this document parses and has neither a
  participant nor a process, under any of the three sets; the loop is left after the first
  set all the same, with \<open>success\<close>, and the two other sets are not tried.
\<close>

theorem namespace_loop_counterexample:
  "namespace_sets_loop plain_env plain_world ''<root/>'' ''/d/flow.iflw''
       structural_namespace_sets initialize_result_structure
     = ([hd structural_namespace_sets], True,
        process_content plain_env plain_world ''<root/>'' ''/d/flow.iflw''
          initialize_result_structure) \<and>
   list_all (\<lambda>ns. workflow (extract_structure empty_document ns initialize_result_structure) = []
               \<and> senders (extract_structure empty_document ns initialize_result_structure) = []
               \<and> receivers (extract_structure empty_document ns initialize_result_structure) = [])
     structural_namespace_sets"
proof -
  have p: "et_fromstring plain_env ''<root/>'' = Inr empty_document"
    by (simp add: plain_env_def)
  have "namespace_sets_loop plain_env plain_world ''<root/>'' ''/d/flow.iflw''
       structural_namespace_sets initialize_result_structure
     = ([hd structural_namespace_sets], True,
        process_content plain_env plain_world ''<root/>'' ''/d/flow.iflw''
          initialize_result_structure)"
    by (simp add: p process_content_def structural_namespace_sets_def)
  moreover have "list_all (\<lambda>ns. workflow (extract_structure empty_document ns initialize_result_structure) = []
               \<and> senders (extract_structure empty_document ns initialize_result_structure) = []
               \<and> receivers (extract_structure empty_document ns initialize_result_structure) = [])
     structural_namespace_sets"
    by code_simp
  ultimately show ?thesis by simp
qed

section \<open>The scratch directory\<close>

lemma is_file_read: "is_file w p \<longleftrightarrow> read_file w p \<noteq> None"
  by (simp add: is_file_def read_file_def map_of_eq_None_iff)

lemma frame_refl: "frame d w w"
  by (simp add: frame_def)

lemma frame_trans: "frame d w w1 \<Longrightarrow> frame d w1 w2 \<Longrightarrow> frame d w w2"
  by (auto simp: frame_def)

lemma startswith_append: "startswith (a @ b) a"
  by (induction a) simp_all

lemma under_self: "under d d"
  by (simp add: under_def)

lemma under_extract_target: "under d (extract_target d name)"
  using startswith_append [of "d @ ''/''" "arcname name"]
  by (simp add: under_def extract_target_def)

lemma makedirs_frame:
  assumes "makedirs w p = Some w1"
  shows "frame d w w1" and "p \<in> set (fs_dirs w1)" and "\<not> is_file w p"
    and "fs_files w1 = fs_files w"
  using assms
  by (auto simp: makedirs_def frame_def read_file_def list_ex_iff split: if_splits)

lemma write_file_frame:
  assumes "write_file w p data = Some w1" and "under d p"
  shows "frame d w w1"
  using assms
  by (auto simp: write_file_def frame_def read_file_def update_conv' split: if_splits)

lemma write_file_settled:
  assumes "write_file w p data = Some w1" and "settled d w"
  shows "settled d w1"
  using assms
  by (auto simp: write_file_def settled_def is_file_read read_file_def update_conv'
      split: if_splits)

lemma makedirs_settled:
  assumes "makedirs w p = Some w1" and "settled d w"
  shows "settled d w1"
  using assms
  by (auto simp: makedirs_def settled_def is_file_def split: if_splits)

lemma extract_member_settled:
  assumes "settled d w"
  shows "settled d (fst (extract_member w entries name d0))"
proof -
  have step: "settled d (fst (if endswith name ''/''
             then (if extract_target d0 name \<in> set (fs_dirs w1) then (w1, False)
                   else if is_file w1 (extract_target d0 name) then (w1, True)
                   else (w1\<lparr>fs_dirs := fs_dirs w1 @ [extract_target d0 name]\<rparr>, False))
             else (case zip_read entries name of
                     None \<Rightarrow> (w1, True)
                   | Some data \<Rightarrow>
                       (case write_file w1 (extract_target d0 name) data of
                          None \<Rightarrow> (w1, True)
                        | Some w2 \<Rightarrow> (w2, False)))))"
    if "settled d w1" for w1
    using that
    by (auto simp: write_file_settled split: option.splits)
       (auto simp: settled_def is_file_def)
  show ?thesis
  proof (cases "if dirname (extract_target d0 name) \<noteq> [] \<and>
                \<not> path_exists w (dirname (extract_target d0 name))
                then makedirs w (dirname (extract_target d0 name)) else Some w")
    case None
    then show ?thesis using assms by (simp add: extract_member_def Let_def)
  next
    case (Some w1)
    then have "settled d w1"
      using assms by (auto simp: makedirs_settled split: if_splits)
    then show ?thesis
      using Some step [of w1] by (simp add: extract_member_def Let_def)
  qed
qed

lemma extract_member_frame: "frame d w (fst (extract_member w entries name d))"
proof -
  have t: "under d (extract_target d name)" by (rule under_extract_target)
  have step: "frame d w1 (fst (if endswith name ''/''
             then (if extract_target d name \<in> set (fs_dirs w1) then (w1, False)
                   else if is_file w1 (extract_target d name) then (w1, True)
                   else (w1\<lparr>fs_dirs := fs_dirs w1 @ [extract_target d name]\<rparr>, False))
             else (case zip_read entries name of
                     None \<Rightarrow> (w1, True)
                   | Some data \<Rightarrow>
                       (case write_file w1 (extract_target d name) data of
                          None \<Rightarrow> (w1, True)
                        | Some w2 \<Rightarrow> (w2, False)))))" for w1
    using t by (auto simp: frame_refl write_file_frame split: option.splits)
               (auto simp: frame_def read_file_def)
  show ?thesis
  proof (cases "if dirname (extract_target d name) \<noteq> [] \<and>
                \<not> path_exists w (dirname (extract_target d name))
                then makedirs w (dirname (extract_target d name)) else Some w")
    case None
    then show ?thesis by (simp add: extract_member_def Let_def frame_refl)
  next
    case (Some w1)
    then have "frame d w w1"
      by (auto simp: makedirs_frame frame_refl split: if_splits)
    then show ?thesis
      using Some step [of w1] by (auto simp: extract_member_def Let_def intro: frame_trans)
  qed
qed

lemma extract_essential_files_frame:
  "frame d w (extract_essential_files w entries d)"
proof -
  have "frame d w (fold (\<lambda>file w1. fst (extract_member w1 entries file d)) names w)" for names
  proof (induction names arbitrary: w)
    case Nil
    show ?case by (simp add: frame_refl)
  next
    case (Cons name names)
    show ?case
      using extract_member_frame [of d w entries name]
        Cons.IH [of "fst (extract_member w entries name d)"]
      by (auto intro: frame_trans)
  qed
  then show ?thesis by (simp add: extract_essential_files_def)
qed

lemma extract_essential_files_settled:
  assumes "settled d w"
  shows "settled d (extract_essential_files w entries d)"
proof -
  have "settled d (fold (\<lambda>file w1. fst (extract_member w1 entries file d)) names w)"
    if "settled d w" for names w
    using that
    by (induction names arbitrary: w) (simp_all add: extract_member_settled)
  with assms show ?thesis by (simp add: extract_essential_files_def)
qed

lemma zip_body_world:
  "frame (scratch_dir e file_path) w (fst (zip_body e w file_path result)) \<and>
   (fst (zip_body e w file_path result) = w
      \<and> makedirs w (scratch_dir e file_path) = None
    \<or> settled (scratch_dir e file_path) (fst (zip_body e w file_path result)))"
proof (cases "makedirs w (scratch_dir e file_path)")
  case None
  then show ?thesis by (simp add: zip_body_def Let_def frame_refl)
next
  case (Some w1)
  then have f: "frame (scratch_dir e file_path) w w1"
    and s: "settled (scratch_dir e file_path) w1"
    using makedirs_frame [OF Some] by (auto simp: settled_def is_file_def)
  have "frame (scratch_dir e file_path) w1 (extract_essential_files w1 entries (scratch_dir e file_path))"
    and "settled (scratch_dir e file_path) (extract_essential_files w1 entries (scratch_dir e file_path))"
    for entries
    using s by (simp_all add: extract_essential_files_frame extract_essential_files_settled)
  with f s Some show ?thesis
    by (auto simp: zip_body_def Let_def split: option.splits sum.splits intro: frame_trans)
qed

lemma map_of_filter_fst:
  "P k \<Longrightarrow> map_of (filter (\<lambda>f. P (fst f)) xs) k = map_of xs k"
  by (induction xs) auto

lemma rmtree_frame: "frame d w (fst (rmtree w d))"
  by (auto simp: rmtree_def frame_def read_file_def map_of_filter_fst [where P = "\<lambda>p. \<not> under d p"])

lemma rmtree_removes:
  assumes "settled d w" and "\<forall>p \<in> set (fs_undeletable w). \<not> under d p" and "under d p"
  shows "\<not> path_exists (fst (rmtree w d)) p"
proof -
  from assms(1,2) have "\<not> (is_file w d \<or> list_ex (\<lambda>p. under d p \<and> path_exists w p) (fs_undeletable w))"
    by (auto simp: settled_def list_ex_iff)
  then have "fst (rmtree w d) = w\<lparr>fs_files := filter (\<lambda>f. \<not> under d (fst f)) (fs_files w),
              fs_dirs := filter (\<lambda>p. \<not> under d p) (fs_dirs w)\<rparr>"
    by (simp add: rmtree_def)
  with assms(3) show ?thesis
    by (auto simp: path_exists_def is_file_def)
qed

lemma process_zip_file_world:
  "fst (process_zip_file e w file_path result) =
     (if path_exists (fst (zip_body e w file_path result)) (scratch_dir e file_path)
      then fst (rmtree (fst (zip_body e w file_path result)) (scratch_dir e file_path))
      else fst (zip_body e w file_path result))"
  by (simp add: process_zip_file_def Let_def split: prod.splits)

lemma process_zip_file_frame:
  "frame (scratch_dir e file_path) w (fst (process_zip_file e w file_path result))"
proof -
  have "frame (scratch_dir e file_path) w (fst (zip_body e w file_path result))"
    using zip_body_world by blast
  then show ?thesis
    unfolding process_zip_file_world
    by (auto intro: frame_trans rmtree_frame)
qed

text \<open>
  Claim C9, as the code has it. Let the scratch directory be fresh: before the call
  neither it nor a path below it exists. Then, on every way through the ZIP processing,
  (1) when the system refuses no removal below the scratch directory, no path in it exists
  after the call; (2) every file outside the scratch directory has the content it had, the
  source archive among them. When the removal raises, the handler of the \<open>finally\<close> block
  swallows the exception and the directory stays.
\<close>

theorem scratch_directory_removed:
  assumes fresh: "\<forall>p. under (scratch_dir e file_path) p \<longrightarrow> \<not> path_exists w p"
  shows "((\<forall>p \<in> set (fs_undeletable w). \<not> under (scratch_dir e file_path) p) \<longrightarrow>
            (\<forall>p. under (scratch_dir e file_path) p \<longrightarrow>
                 \<not> path_exists (fst (process_zip_file e w file_path result)) p)) \<and>
         (\<forall>p. \<not> under (scratch_dir e file_path) p \<longrightarrow>
              read_file (fst (process_zip_file e w file_path result)) p = read_file w p) \<and>
         (path_exists w file_path \<longrightarrow>
            read_file (fst (process_zip_file e w file_path result)) file_path
              = read_file w file_path)"
proof (intro conjI impI allI)
  let ?d = "scratch_dir e file_path"
  let ?w1 = "fst (zip_body e w file_path result)"
  let ?w2 = "fst (process_zip_file e w file_path result)"
  have outside: "read_file ?w2 p = read_file w p" if "\<not> under ?d p" for p
    using process_zip_file_frame [of e file_path w result] that by (simp add: frame_def)
  { fix p assume "\<not> under ?d p"
    then show "read_file ?w2 p = read_file w p" by (rule outside) }
  { assume "path_exists w file_path"
    with fresh have "\<not> under ?d file_path" by blast
    then show "read_file ?w2 file_path = read_file w file_path" by (rule outside) }
  { fix p
    assume free: "\<forall>p \<in> set (fs_undeletable w). \<not> under ?d p" and p: "under ?d p"
    from zip_body_world [of e file_path w result]
    consider (failed) "?w1 = w" | (made) "settled ?d ?w1" by blast
    then show "\<not> path_exists ?w2 p"
    proof cases
      case failed
      from fresh have "\<not> path_exists w ?d" by (simp add: under_self)
      with failed have "?w2 = w" by (simp add: process_zip_file_world)
      with fresh p show ?thesis by simp
    next
      case made
      then have "path_exists ?w1 ?d" by (simp add: settled_def path_exists_def)
      then have w2: "?w2 = fst (rmtree ?w1 ?d)" by (simp add: process_zip_file_world)
      have "fs_undeletable ?w1 = fs_undeletable w"
        using zip_body_world [of e file_path w result] by (simp add: frame_def)
      with free have "\<forall>p \<in> set (fs_undeletable ?w1). \<not> under ?d p" by simp
      with made show ?thesis unfolding w2 using p by (rule rmtree_removes)
    qed }
qed

lemma witness_fresh:
  "\<forall>p. under (scratch_dir scenario_env ''/d/a.zip'') p \<longrightarrow> \<not> path_exists scenario_world p"
proof (intro allI impI)
  fix p assume u: "under (scratch_dir scenario_env ''/d/a.zip'') p"
  have "\<not> under (scratch_dir scenario_env ''/d/a.zip'') ''/d/a.zip''"
    and "\<not> under (scratch_dir scenario_env ''/d/a.zip'') ''/d''"
    by code_simp+
  with u have "p \<noteq> ''/d/a.zip''" and "p \<noteq> ''/d''" by auto
  then show "\<not> path_exists scenario_world p"
    by (simp add: path_exists_def is_file_def scenario_world_def)
qed

lemma witness_free:
  "\<forall>p \<in> set (fs_undeletable scenario_world). \<not> under (scratch_dir scenario_env ''/d/a.zip'') p"
  by (simp add: scenario_world_def)

lemma witness_archive: "path_exists scenario_world ''/d/a.zip''"
  by code_simp

lemma witness_scratch: "under (scratch_dir scenario_env ''/d/a.zip'') ''/d/extracted_u/test.iflw''"
  by code_simp

theorem scratch_directory_removed_witness:
  "path_exists scenario_world ''/d/a.zip'' \<and>
   under (scratch_dir scenario_env ''/d/a.zip'') ''/d/extracted_u/test.iflw'' \<and>
   \<not> path_exists
       (fst (process_zip_file scenario_env scenario_world ''/d/a.zip'' initialize_result_structure))
       ''/d/extracted_u/test.iflw'' \<and>
   read_file
       (fst (process_zip_file scenario_env scenario_world ''/d/a.zip'' initialize_result_structure))
       ''/d/a.zip'' = read_file scenario_world ''/d/a.zip''"
  using witness_free witness_archive witness_scratch
    scratch_directory_removed [OF witness_fresh, of initialize_result_structure]
  by blast

text \<open>
  The claim as the specification words it fails: the archive is extracted, the system
  refuses to remove the extracted flow, and the scratch directory exists after the call.
\<close>

theorem scratch_directory_counterexample:
  "\<not> path_exists locked_world (scratch_dir scenario_env ''/d/a.zip'') \<and>
   path_exists
     (fst (process_zip_file scenario_env locked_world ''/d/a.zip'' initialize_result_structure))
     (scratch_dir scenario_env ''/d/a.zip'')"
  by code_simp

section \<open>An archive that does not open\<close>

lemma zip_body_raises:
  assumes "read_file w file_path = Some bytes" and "zipfile_open e bytes = Inl msg"
  shows "snd (snd (zip_body e w file_path result)) \<noteq> None"
proof (cases "makedirs w (scratch_dir e file_path)")
  case None
  then show ?thesis by (simp add: zip_body_def Let_def)
next
  case (Some w1)
  then have "fs_files w1 = fs_files w" by (rule makedirs_frame)
  with assms(1) have "read_file w1 file_path = Some bytes" by (simp add: read_file_def)
  with Some assms(2) show ?thesis by (simp add: zip_body_def Let_def)
qed

lemma process_zip_file_error:
  assumes "read_file w file_path = Some bytes" and "zipfile_open e bytes = Inl msg"
  shows "error (snd (process_zip_file e w file_path result)) \<noteq> None"
  using zip_body_raises [OF assms, of result]
  by (auto simp: process_zip_file_def Let_def split: prod.splits option.splits)

text \<open>
  Claim C10. For a path that ends in \<open>.zip\<close> and names a file whose bytes do not open as a
  ZIP archive, \<open>get_iflow_content\<close> returns the result dictionary, with its key \<open>error\<close>
  set. The call returns on every path of the model: an exception is a value there, and
  each one of the ZIP processing ends in the handler that sets the key.
\<close>

theorem corrupt_archive_sets_error:
  assumes "read_file w file_path = Some bytes"
    and "endswith file_path ''.zip''"
    and "zipfile_open e bytes = Inl msg"
  shows "\<exists>result.
           snd (get_iflow_content e w current_iflow_path (Some file_path)) = ResultDoc result \<and>
           error result \<noteq> None"
proof -
  from assms(2) have "file_path \<noteq> []" by (auto simp: endswith_def)
  then have t: "truthy (Some file_path) = Some file_path" by (simp add: truthy_def)
  from assms(1) have x: "path_exists w file_path"
    by (simp add: path_exists_def is_file_read)
  have "snd (get_iflow_content e w current_iflow_path (Some file_path))
        = ResultDoc (snd (process_zip_file e w file_path initialize_result_structure))"
    using t x assms(2) by (simp add: get_iflow_content_def split: prod.splits)
  with process_zip_file_error [OF assms(1,3)] show ?thesis by simp
qed

lemma witness_corrupt: "read_file corrupt_world ''/d/a.zip'' = Some ''PK-truncated''"
  by code_simp

lemma witness_zip_suffix: "endswith ''/d/a.zip'' ''.zip''"
  by code_simp

lemma witness_bad_zip: "zipfile_open scenario_env ''PK-truncated'' = Inl ''File is not a zip file''"
  by (simp add: scenario_env_def)

theorem corrupt_archive_sets_error_witness:
  "read_file corrupt_world ''/d/a.zip'' = Some ''PK-truncated'' \<and>
   endswith ''/d/a.zip'' ''.zip'' \<and>
   zipfile_open scenario_env ''PK-truncated'' = Inl ''File is not a zip file'' \<and>
   (\<exists>result.
      snd (get_iflow_content scenario_env corrupt_world None (Some ''/d/a.zip'')) = ResultDoc result \<and>
      error result \<noteq> None)"
  using witness_corrupt witness_zip_suffix witness_bad_zip
    corrupt_archive_sets_error [OF witness_corrupt witness_zip_suffix witness_bad_zip, of None]
  by blast

section \<open>The scenario of a parameter that resolves to Basic\<close>

text \<open>
  Claim C1 at its own scenario. The archive holds \<open>test.iflw\<close> with the parameterized
  declaration and \<open>parameters.prop\<close> with \<open>AUTH_METHOD=Basic\<close>; both are extracted, so the
  property file lies beside the flow. The result of \<open>get_iflow_content\<close> is compliant and
  has no security issue, because the properties never reach the check. With the properties
  of that file the check itself is not compliant and names the parameter and the value.
\<close>

theorem parameterized_basic_scenario:
  "(case snd (get_iflow_content scenario_env scenario_world None (Some ''/d/a.zip'')) of
      ErrorDoc m \<Rightarrow> False
    | ResultDoc result \<Rightarrow> security_compliant result \<and> security_issues result = []) \<and>
   \<not> is_compliant
       (check_security_compliance (et_fromstring scenario_env)
          ''<key>authenticationMethod</key><value>{{AUTH_METHOD}}</value>''
          (extract_properties ''AUTH_METHOD=Basic'')) \<and>
   issues
       (check_security_compliance (et_fromstring scenario_env)
          ''<key>authenticationMethod</key><value>{{AUTH_METHOD}}</value>''
          (extract_properties ''AUTH_METHOD=Basic''))
     = [''Basic Authentication detected via parameter: '' @ quoted ''AUTH_METHOD'' @ '' = ''
          @ quoted ''Basic'']"
  by code_simp

end
